theory Spec2Isabelle
  imports Complex_Main "HOL-Library.Word" "HOL-Library.Multiset"
begin

section \<open>The input layer of CN24: \<^verbatim>\<open>src/net/DatasetInputLayer.cpp\<close>\<close>

text \<open>
  The development embeds the class \<^verbatim>\<open>Conv::DatasetInputLayer\<close> function by function.
  \<^item> \<^verbatim>\<open>unsigned int\<close> is \<open>32 word\<close>: \<open>+\<close> wraps, \<open>unat\<close> reads the value.
    \<^verbatim>\<open>std::size_t\<close> values (vector sizes, the batch slot) are \<open>nat\<close>; a comparison of an
    \<^verbatim>\<open>unsigned int\<close> with a \<^verbatim>\<open>size_t\<close> converts the former, which is \<open>unat\<close>.
  \<^item> \<^verbatim>\<open>datum\<close> is read as a real number; the only operation on it is the comparison
    \<^verbatim>\<open>dist_(generator_) > loss_sampling_p_\<close> and the constant \<open>0\<close>.
  \<^item> A \<^verbatim>\<open>CombinedTensor*\<close> is an optional address into a store of tensors
    (\<open>None\<close> is \<^verbatim>\<open>nullptr\<close>).
  \<^item> Undefined behaviour (an index beyond a vector, a null or dangling pointer), the
    \<^verbatim>\<open>FATAL\<close> exit and a loop that never ends are outcomes of their own.
\<close>

subsection \<open>Tensors and the store\<close>

type_synonym datum = real
type_synonym uint = "32 word"
type_synonym addr = nat
type_synonym ptr = "addr option"

text \<open>
  Modelled from the spec: the class \<^verbatim>\<open>Tensor\<close> (its header is not part of the sources at
  hand). The shape is (samples, width, height, maps); an element is addressed by
  (x, y, map, sample), which is what \<^verbatim>\<open>data_ptr(x, y, map, sample)\<close> points to. The
  storage is indexed by the four coordinates; the bounds of the buffer are not modelled.
\<close>

record Tensor =
  samples :: nat
  width :: nat
  height :: nat
  maps :: nat
  elements :: "nat \<Rightarrow> nat \<Rightarrow> nat \<Rightarrow> nat \<Rightarrow> datum"

text \<open>\<^verbatim>\<open>*t.data_ptr(x, y, map, sample) = v\<close>\<close>

definition data_ptr_write :: "Tensor \<Rightarrow> nat \<Rightarrow> nat \<Rightarrow> nat \<Rightarrow> nat \<Rightarrow> datum \<Rightarrow> Tensor" where
  "data_ptr_write t x y m n v =
     t\<lparr>elements := (\<lambda>a b c d. if a = x \<and> b = y \<and> c = m \<and> d = n then v else elements t a b c d)\<rparr>"

text \<open>
  Modelled from the spec: \<^verbatim>\<open>Tensor::Clear(value, sample)\<close> resets one batch slot to a
  constant.
\<close>

definition Clear :: "Tensor \<Rightarrow> datum \<Rightarrow> nat \<Rightarrow> Tensor" where
  "Clear t v n = t\<lparr>elements := (\<lambda>a b c d. if d = n then v else elements t a b c d)\<rparr>"

record CombinedTensor =
  data :: Tensor
  delta :: Tensor

type_synonym store = "CombinedTensor list"

text \<open>Following a pointer: only an address inside the store can be dereferenced.\<close>

definition deref :: "store \<Rightarrow> ptr \<Rightarrow> addr option" where
  "deref st p = (case p of None \<Rightarrow> None | Some a \<Rightarrow> if a < length st then Some a else None)"

subsection \<open>The collaborators: the standard library and the Dataset\<close>

text \<open>
  The random number engine \<^verbatim>\<open>std::mt19937\<close>, \<^verbatim>\<open>std::shuffle\<close> and
  \<^verbatim>\<open>std::uniform_real_distribution\<close> belong to the C++ standard library. They are
  parameters of the model: \<open>'g\<close> is the state of the engine.
\<close>

record 'g stdlib =
  mt19937 :: "uint \<Rightarrow> 'g"
  shuffle :: "uint list \<Rightarrow> 'g \<Rightarrow> uint list \<times> 'g"
  dist :: "'g \<Rightarrow> datum \<times> 'g"

text \<open>
  The \<^verbatim>\<open>Dataset\<close> is an abstract class implemented elsewhere. A fetch receives the three
  tensors by reference, the batch slot and the index of the sample; it returns its success
  flag and leaves the store as it has written it.
\<close>

record Dataset =
  GetWidth :: nat
  GetHeight :: nat
  GetInputMaps :: nat
  GetLabelMaps :: nat
  GetTrainingSamples :: uint
  GetTestingSamples :: uint
  GetTrainingSample :: "store \<Rightarrow> addr \<Rightarrow> addr \<Rightarrow> addr \<Rightarrow> nat \<Rightarrow> uint \<Rightarrow> bool \<times> store"
  GetTestingSample :: "store \<Rightarrow> addr \<Rightarrow> addr \<Rightarrow> addr \<Rightarrow> nat \<Rightarrow> uint \<Rightarrow> bool \<times> store"

subsection \<open>The layer\<close>

text \<open>
  The members of the class. Isabelle reserves names that end in an underscore, so
  \<^verbatim>\<open>perm_\<close> is \<open>perm\<close>, \<^verbatim>\<open>testing_\<close> is \<open>testing\<close>, and so on; a local variable of the
  source whose name would then coincide with a member carries a prime.
\<close>

record 'g layer =
  dataset :: Dataset
  batch_size :: uint
  loss_sampling_p :: datum
  seed :: uint
  generator :: 'g
  label_maps :: nat
  input_maps :: nat
  elements_training :: uint
  elements_testing :: uint
  elements_total :: uint
  perm :: "uint list"
  current_element :: uint
  current_element_testing :: uint
  testing :: bool
  data_output :: ptr
  label_output :: ptr
  helper_output :: ptr
  localized_error_output :: ptr

datatype error = Fatal string | NullPointer | OutOfRange | NoReturn

text \<open>\<^verbatim>\<open>v[i]\<close> on a \<^verbatim>\<open>std::vector\<close>: defined only below the size.\<close>

definition vector_at :: "'a list \<Rightarrow> nat \<Rightarrow> error + 'a" where
  "vector_at v i = (if i < length v then Inr (v ! i) else Inl OutOfRange)"

subsection \<open>\<^verbatim>\<open>SetTestingMode\<close>\<close>

definition SetTestingMode :: "'g layer \<Rightarrow> bool \<Rightarrow> 'g layer" where
  "SetTestingMode s testing' =
     (let s1 = (if testing' \<noteq> testing s
                then (if testing' then s\<lparr>current_element_testing := 0\<rparr> else s)
                else s)
      in s1\<lparr>testing := testing'\<rparr>)"

subsection \<open>\<^verbatim>\<open>Connect\<close>\<close>

text \<open>
  The four reads \<^verbatim>\<open>outputs[0]\<close> .. \<^verbatim>\<open>outputs[3]\<close> come first, then the null test of three
  of the four pointers, then the test of the sizes. The result is the returned flag and
  the layer.
\<close>

definition Connect :: "'g layer \<Rightarrow> ptr list \<Rightarrow> ptr list \<Rightarrow> error + (bool \<times> 'g layer)" where
  "Connect s inputs outputs =
     (case vector_at outputs 0 of Inl e \<Rightarrow> Inl e | Inr data_output' \<Rightarrow>
     (case vector_at outputs 1 of Inl e \<Rightarrow> Inl e | Inr label_output' \<Rightarrow>
     (case vector_at outputs 2 of Inl e \<Rightarrow> Inl e | Inr helper_output' \<Rightarrow>
     (case vector_at outputs 3 of Inl e \<Rightarrow> Inl e | Inr localized_error_output' \<Rightarrow>
        if data_output' = None \<or> label_output' = None \<or> localized_error_output' = None
        then Inr (False, s)
        else (let valid = (length inputs = 0 \<and> length outputs = 4)
              in Inr (valid,
                      if valid
                      then s\<lparr>data_output := data_output', label_output := label_output',
                             helper_output := helper_output',
                             localized_error_output := localized_error_output'\<rparr>
                      else s))))))"

subsection \<open>\<^verbatim>\<open>CreateOutputs\<close>\<close>




subsection \<open>The constructor and \<^verbatim>\<open>RedoPermutation\<close>\<close>

definition RedoPermutation :: "'g stdlib \<Rightarrow> 'g layer \<Rightarrow> 'g layer" where
  "RedoPermutation L s =
     (let (p, g) = shuffle L (perm s) (generator s) in s\<lparr>perm := p, generator := g\<rparr>)"

text \<open>
  The loop \<^verbatim>\<open>for (unsigned int i = 0; i < elements_training_; i++) perm_.push_back(i)\<close>.
  The counter stays below a 32-bit bound, so it never wraps and the loop ends.
\<close>

function ascending :: "uint \<Rightarrow> uint \<Rightarrow> uint list \<Rightarrow> uint list" where
  "ascending n i p = (if i < n then ascending n (i + 1) (p @ [i]) else p)"
  by pat_completeness auto
termination
proof (relation "measure (\<lambda>(n, i, p). unat n - unat i)")
  show "wf (measure (\<lambda>(n :: uint, i :: uint, p :: uint list). unat n - unat i))"
    by simp
next
  fix n i :: uint and p :: "uint list"
  assume less: "i < n"
  then have "unat i < unat n"
    by (simp add: word_less_nat_alt)
  moreover have "unat n < 2 ^ LENGTH(32)"
    by (rule unsigned_less)
  ultimately have "unat i + unat (1 :: uint) < 2 ^ LENGTH(32)"
    by simp
  then have "unat (i + 1) = unat i + unat (1 :: uint)"
    by (simp only: unat_add_lem)
  with \<open>unat i < unat n\<close>
  show "((n, i + 1, p @ [i]), (n, i, p)) \<in> measure (\<lambda>(n, i, p). unat n - unat i)"
    by simp
qed

declare ascending.simps [simp del]

text \<open>
  Modelled from the spec: the member declarations of \<^verbatim>\<open>DatasetInputLayer.h\<close> (not part of
  the sources at hand) give the members that the constructor does not mention their first
  values: both cursors start at 0, the layer starts in training mode, and no output is
  bound.
\<close>

definition DatasetInputLayer ::
  "'g stdlib \<Rightarrow> Dataset \<Rightarrow> uint \<Rightarrow> datum \<Rightarrow> uint \<Rightarrow> 'g layer" where
  "DatasetInputLayer L dataset' batch_size' loss_sampling_p' seed' =
     RedoPermutation L
       \<lparr>dataset = dataset', batch_size = batch_size', loss_sampling_p = loss_sampling_p',
        seed = seed', generator = mt19937 L seed',
        label_maps = GetLabelMaps dataset', input_maps = GetInputMaps dataset',
        elements_training = GetTrainingSamples dataset',
        elements_testing = GetTestingSamples dataset',
        elements_total = GetTrainingSamples dataset' + GetTestingSamples dataset',
        perm = ascending (GetTrainingSamples dataset') 0 [],
        current_element = 0, current_element_testing = 0, testing = False,
        data_output = None, label_output = None, helper_output = None,
        localized_error_output = None\<rparr>"

subsection \<open>\<^verbatim>\<open>FeedForward\<close>: the choice of the sample\<close>

text \<open>
  Lines 117 to 143 of the source, for one batch slot. The result is
  \<^verbatim>\<open>selected_element\<close>, \<^verbatim>\<open>force_no_weight\<close>, whether \<^verbatim>\<open>RedoPermutation\<close> was called, and the
  layer. The read \<^verbatim>\<open>perm_[current_element_]\<close> is defined only below the size of the vector.
\<close>

definition select_element ::
  "'g stdlib \<Rightarrow> 'g layer \<Rightarrow> error + (uint \<times> bool \<times> bool \<times> 'g layer)" where
  "select_element L s =
     (if testing s
      then (let selected_element = current_element_testing s;
                s1 = s\<lparr>current_element_testing := current_element_testing s + 1\<rparr>
            in if elements_testing s1 \<le> current_element_testing s1
               then Inr (0, True, False, s1)
               else Inr (selected_element, False, False, s1))
      else (case vector_at (perm s) (unat (current_element s)) of
              Inl e \<Rightarrow> Inl e
            | Inr selected_element \<Rightarrow>
                (let s1 = s\<lparr>current_element := current_element s + 1\<rparr>
                 in if length (perm s1) \<le> unat (current_element s1)
                    then Inr (selected_element, False, True,
                              RedoPermutation L (s1\<lparr>current_element := 0\<rparr>))
                    else Inr (selected_element, False, False, s1))))"

subsection \<open>\<^verbatim>\<open>FeedForward\<close>: loss sampling\<close>

text \<open>
  Lines 161 to 172: four nested loops over \<^verbatim>\<open>unsigned int\<close> counters. The additions
  \<^verbatim>\<open>y += block_size\<close> and \<^verbatim>\<open>y + block_size\<close> wrap at \<open>2 ^ 32\<close>, and on a tensor wide or
  high enough the outer loops do not end: the loops are partial functions, \<open>None\<close> being
  a loop that never returns.
\<close>

partial_function (option) loss_sampling_ix ::
  "nat \<Rightarrow> uint \<Rightarrow> uint \<Rightarrow> uint \<Rightarrow> Tensor \<Rightarrow> Tensor option" where
  "loss_sampling_ix sample x iy ix t =
     (if ix < x + 12 \<and> unat ix < width t
      then loss_sampling_ix sample x iy (ix + 1) (data_ptr_write t (unat ix) (unat iy) 0 sample 0)
      else Some t)"

partial_function (option) loss_sampling_iy ::
  "nat \<Rightarrow> uint \<Rightarrow> uint \<Rightarrow> uint \<Rightarrow> Tensor \<Rightarrow> Tensor option" where
  "loss_sampling_iy sample x y iy t =
     (if iy < y + 12 \<and> unat iy < height t
      then Option.bind (loss_sampling_ix sample x iy x t)
             (\<lambda>t1. loss_sampling_iy sample x y (iy + 1) t1)
      else Some t)"

partial_function (option) loss_sampling_x ::
  "'g stdlib \<Rightarrow> datum \<Rightarrow> nat \<Rightarrow> uint \<Rightarrow> uint \<Rightarrow> Tensor \<Rightarrow> 'g \<Rightarrow> (Tensor \<times> 'g) option" where
  "loss_sampling_x L p sample y x t g =
     (if unat x < width t
      then Option.bind
             (if p < fst (dist L g) then loss_sampling_iy sample x y y t else Some t)
             (\<lambda>t1. loss_sampling_x L p sample y (x + 12) t1 (snd (dist L g)))
      else Some (t, g))"

partial_function (option) loss_sampling_y ::
  "'g stdlib \<Rightarrow> datum \<Rightarrow> nat \<Rightarrow> uint \<Rightarrow> Tensor \<Rightarrow> 'g \<Rightarrow> (Tensor \<times> 'g) option" where
  "loss_sampling_y L p sample y t g =
     (if unat y < height t
      then Option.bind (loss_sampling_x L p sample y 0 t g)
             (\<lambda>(t1, g1). loss_sampling_y L p sample (y + 12) t1 g1)
      else Some (t, g))"

declare loss_sampling_ix.simps [code]
declare loss_sampling_iy.simps [code]
declare loss_sampling_x.simps [code]
declare loss_sampling_y.simps [code]

text \<open>
  Lines 156 to 177: loss sampling in training mode on a sample that is not padding, then
  the clearing of a padding sample.
\<close>

definition sample_weights ::
  "'g stdlib \<Rightarrow> bool \<Rightarrow> bool \<Rightarrow> datum \<Rightarrow> nat \<Rightarrow> Tensor \<Rightarrow> 'g \<Rightarrow> (Tensor \<times> 'g) option" where
  "sample_weights L testing' force_no_weight p sample t g =
     Option.bind
       (if \<not> testing' \<and> \<not> force_no_weight then loss_sampling_y L p sample 0 t g else Some (t, g))
       (\<lambda>(t1, g1). Some (if force_no_weight then Clear t1 0 sample else t1, g1))"

subsection \<open>\<^verbatim>\<open>FeedForward\<close>: one batch slot and the batch\<close>

text \<open>
  An outcome that is not a return carries the layer and the store as they are at that
  moment.
\<close>

type_synonym 'g halt = "error \<times> 'g layer \<times> store"

text \<open>
  Modelled from the spec: the macro \<^verbatim>\<open>FATAL\<close> (defined in a header that is not part of
  the sources at hand) is fatal and halting: control does not come back to the caller, and
  nothing resumes afterwards.
\<close>

definition FATAL :: "string \<Rightarrow> 'g layer \<Rightarrow> store \<Rightarrow> 'g halt + 'a" where
  "FATAL msg s st = Inl (Fatal msg, s, st)"

text \<open>Lines 146 to 150: the fetch of the mode.\<close>

definition fetch ::
  "'g layer \<Rightarrow> store \<Rightarrow> addr \<Rightarrow> addr \<Rightarrow> addr \<Rightarrow> nat \<Rightarrow> uint \<Rightarrow> bool \<times> store" where
  "fetch s st d l w sample selected_element =
     (if testing s
      then GetTestingSample (dataset s) st d l w sample selected_element
      else GetTrainingSample (dataset s) st d l w sample selected_element)"

text \<open>
  What one batch slot did: the index handed to the Dataset, \<^verbatim>\<open>force_no_weight\<close>, and
  whether the permutation was shuffled again.
\<close>

datatype slot_log = Slot (selected: uint) (no_weight: bool) (reshuffled: bool)

text \<open>
  The body of the loop over the batch, lines 117 to 177. The three tensors are
  dereferenced for the fetch; the tensor of the loss weights is dereferenced again where
  the source reads or writes it.
\<close>

definition slot ::
  "'g stdlib \<Rightarrow> 'g layer \<Rightarrow> store \<Rightarrow> nat \<Rightarrow> 'g halt + (slot_log \<times> 'g layer \<times> store)" where
  "slot L s st sample =
     (case select_element L s of
        Inl e \<Rightarrow> Inl (e, s, st)
      | Inr (selected_element, force_no_weight, redone, s1) \<Rightarrow>
          (case (deref st (data_output s1), deref st (label_output s1),
                 deref st (localized_error_output s1)) of
             (Some d, Some l, Some w) \<Rightarrow>
               (let (success, st1) = fetch s1 st d l w sample selected_element
                in if \<not> success then FATAL ''Cannot load samples from Dataset!'' s1 st1
                   else if testing s1 \<and> \<not> force_no_weight
                   then Inr (Slot selected_element force_no_weight redone, s1, st1)
                   else (case deref st1 (localized_error_output s1) of
                           None \<Rightarrow> Inl (NullPointer, s1, st1)
                         | Some w1 \<Rightarrow>
                             (case sample_weights L (testing s1) force_no_weight
                                     (loss_sampling_p s1) sample (data (st1 ! w1)) (generator s1) of
                                None \<Rightarrow> Inl (NoReturn, s1, st1)
                              | Some (t, g) \<Rightarrow>
                                  Inr (Slot selected_element force_no_weight redone,
                                       s1\<lparr>generator := g\<rparr>,
                                       st1[w1 := (st1 ! w1)\<lparr>data := t\<rparr>]))))
           | _ \<Rightarrow> Inl (NullPointer, s1, st)))"

text \<open>
  The loop \<^verbatim>\<open>for (std::size_t sample = 0; sample < batch_size_; sample++)\<close> runs the body
  on the slots \<open>0, 1, ..., batch_size_ - 1\<close>; an outcome that is not a return ends it.
\<close>

fun slots ::
  "'g stdlib \<Rightarrow> 'g layer \<Rightarrow> store \<Rightarrow> nat list \<Rightarrow> 'g halt + (slot_log list \<times> 'g layer \<times> store)" where
  "slots L s st [] = Inr ([], s, st)"
| "slots L s st (sample # rest) =
     (case slot L s st sample of
        Inl h \<Rightarrow> Inl h
      | Inr (lg, s1, st1) \<Rightarrow>
          (case slots L s1 st1 rest of
             Inl h \<Rightarrow> Inl h
           | Inr (lgs, s2, st2) \<Rightarrow> Inr (lg # lgs, s2, st2)))"

definition FeedForward ::
  "'g stdlib \<Rightarrow> 'g layer \<Rightarrow> store \<Rightarrow> 'g halt + (slot_log list \<times> 'g layer \<times> store)" where
  "FeedForward L s st = slots L s st [0..<unat (batch_size s)]"

text \<open>A number of calls of \<^verbatim>\<open>FeedForward\<close> in a row.\<close>

fun FeedForward_calls ::
  "'g stdlib \<Rightarrow> nat \<Rightarrow> 'g layer \<Rightarrow> store \<Rightarrow> 'g halt + (slot_log list \<times> 'g layer \<times> store)" where
  "FeedForward_calls L 0 s st = Inr ([], s, st)"
| "FeedForward_calls L (Suc n) s st =
     (case FeedForward L s st of
        Inl h \<Rightarrow> Inl h
      | Inr (lgs, s1, st1) \<Rightarrow>
          (case FeedForward_calls L n s1 st1 of
             Inl h \<Rightarrow> Inl h
           | Inr (lgs', s2, st2) \<Rightarrow> Inr (lgs @ lgs', s2, st2)))"

subsection \<open>The other member functions\<close>

definition BackPropagate :: "'g layer \<Rightarrow> 'g layer" where
  "BackPropagate s = s"

definition GetBatchSize :: "'g layer \<Rightarrow> uint" where
  "GetBatchSize s = batch_size s"

definition GetSamplesInTestingSet :: "'g layer \<Rightarrow> uint" where
  "GetSamplesInTestingSet s = GetTestingSamples (dataset s)"

definition GetSamplesInTrainingSet :: "'g layer \<Rightarrow> uint" where
  "GetSamplesInTrainingSet s = GetTrainingSamples (dataset s)"

text \<open>
  The build without \<^verbatim>\<open>BUILD_OPENCL\<close> is the one embedded here; the transfers between the
  host and the accelerator that the other build adds to \<^verbatim>\<open>FeedForward\<close> move data and do
  not change it.
\<close>

definition IsOpenCLAware :: bool where
  "IsOpenCLAware = False"

subsection \<open>A small instance\<close>

text \<open>
  An instance on which the functions can be run: an engine with sixteen states, a shuffle
  that rotates the vector, a Dataset with five training and two testing samples on images
  of 13 by 2 pixels, whose fetch sets the loss weights of the slot to 1 and fails on the
  index \<open>bad\<close>, and a store of four tensors for a batch of three.
\<close>

definition ex_next :: "nat \<Rightarrow> nat" where
  "ex_next g = (5 * g + 3) mod 16"

definition ex_stdlib :: "nat stdlib" where
  "ex_stdlib =
     \<lparr>mt19937 = (\<lambda>seed'. unat seed' mod 16),
      shuffle = (\<lambda>v g. (rotate (Suc (g mod 3)) v, ex_next g)),
      dist = (\<lambda>g. (real (g mod 16) / 16, ex_next g))\<rparr>"

definition ex_fetch :: "uint \<Rightarrow> store \<Rightarrow> addr \<Rightarrow> addr \<Rightarrow> addr \<Rightarrow> nat \<Rightarrow> uint \<Rightarrow> bool \<times> store" where
  "ex_fetch bad st d l w sample i =
     (i \<noteq> bad, st[w := (st ! w)\<lparr>data := Clear (data (st ! w)) 1 sample\<rparr>])"

definition ex_dataset :: "uint \<Rightarrow> Dataset" where
  "ex_dataset bad =
     \<lparr>GetWidth = 13, GetHeight = 2, GetInputMaps = 3, GetLabelMaps = 1,
      GetTrainingSamples = 5, GetTestingSamples = 2,
      GetTrainingSample = ex_fetch bad, GetTestingSample = ex_fetch bad\<rparr>"

definition ex_tensor :: "nat \<Rightarrow> Tensor" where
  "ex_tensor m = \<lparr>samples = 3, width = 13, height = 2, maps = m, elements = (\<lambda>a b c d. 0)\<rparr>"

definition ex_store :: store where
  "ex_store = map (\<lambda>m. \<lparr>data = ex_tensor m, delta = ex_tensor m\<rparr>) [3, 1, 2, 1]"


definition ex_outputs :: "ptr list" where
  "ex_outputs = [Some 0, Some 1, Some 2, Some 3]"

text \<open>
  The layer of the instance after construction with seed 42, after \<^verbatim>\<open>Connect\<close>, and after
  a switch to testing mode followed by one call of \<^verbatim>\<open>FeedForward\<close>.
\<close>

definition ex_constructed :: "uint \<Rightarrow> nat layer" where
  "ex_constructed bad = DatasetInputLayer ex_stdlib (ex_dataset bad) 3 (1 / 2) 42"

definition ex_layer :: "uint \<Rightarrow> nat layer" where
  "ex_layer bad =
     (case Connect (ex_constructed bad) [] ex_outputs of
        Inr (ok, s) \<Rightarrow> s
      | Inl e \<Rightarrow> ex_constructed bad)"

definition ex_tested :: "nat layer" where
  "ex_tested =
     (case FeedForward ex_stdlib (SetTestingMode (ex_layer 9) True) ex_store of
        Inr (lgs, s, st) \<Rightarrow> s
      | Inl (e, s, st) \<Rightarrow> s)"

text \<open>The connected layer of the instance with another permutation, cursor and engine.\<close>

definition ex_state :: "uint \<Rightarrow> uint list \<Rightarrow> uint \<Rightarrow> nat \<Rightarrow> nat layer" where
  "ex_state bad P c g = (ex_layer bad)\<lparr>generator := g, perm := P, current_element := c\<rparr>"

text \<open>The same layer connected to the four tensors at the addresses \<open>k, ..., k + 3\<close>.\<close>

definition ex_state_at :: "addr \<Rightarrow> uint \<Rightarrow> uint list \<Rightarrow> uint \<Rightarrow> nat \<Rightarrow> nat layer" where
  "ex_state_at k bad P c g =
     (ex_state bad P c g)\<lparr>data_output := Some k, label_output := Some (k + 1),
       helper_output := Some (k + 2), localized_error_output := Some (k + 3)\<rparr>"

subsection \<open>Loss sampling in closed form\<close>

text \<open>
  The words of the spec: the map of the loss weights is cut into blocks of 12 by 12
  pixels, clipped at the border of the image; the blocks are visited row by row, one draw
  for each; a block is zeroed when its draw exceeds \<open>p\<close>. \<open>advance L k g\<close> is the engine
  after \<open>k\<close> draws and \<open>draw L g k\<close> the draw after \<open>k\<close> earlier draws.
\<close>

primrec advance :: "'g stdlib \<Rightarrow> nat \<Rightarrow> 'g \<Rightarrow> 'g" where
  "advance L 0 g = g"
| "advance L (Suc k) g = advance L k (snd (dist L g))"

definition draw :: "'g stdlib \<Rightarrow> 'g \<Rightarrow> nat \<Rightarrow> datum" where
  "draw L g k = fst (dist L (advance L k g))"

definition blocks :: "nat \<Rightarrow> nat" where
  "blocks n = (n + 11) div 12"

definition zero_where :: "Tensor \<Rightarrow> (nat \<Rightarrow> nat \<Rightarrow> nat \<Rightarrow> nat \<Rightarrow> bool) \<Rightarrow> Tensor" where
  "zero_where t Z = t\<lparr>elements := (\<lambda>a b c d. if Z a b c d then 0 else elements t a b c d)\<rparr>"

definition block_sampled :: "'g stdlib \<Rightarrow> datum \<Rightarrow> nat \<Rightarrow> Tensor \<Rightarrow> 'g \<Rightarrow> Tensor" where
  "block_sampled L p sample t g =
     zero_where t (\<lambda>a b c d. c = 0 \<and> d = sample \<and> a < width t \<and> b < height t \<and>
       p < draw L g ((b div 12) * blocks (width t) + a div 12))"

subsection \<open>Reachable layers\<close>

text \<open>
  The layers that a program can hold: the constructed layer, and what any member function
  makes of a reachable layer, in any store and for any arguments. A call that does not
  return (the \<^verbatim>\<open>FATAL\<close> exit in the middle of a batch) also leaves a layer behind.
\<close>

inductive reachable ::
  "'g stdlib \<Rightarrow> Dataset \<Rightarrow> uint \<Rightarrow> datum \<Rightarrow> uint \<Rightarrow> 'g layer \<Rightarrow> bool"
  for L :: "'g stdlib" and ds :: Dataset and b :: uint and p :: datum and sd :: uint where
  constructed: "reachable L ds b p sd (DatasetInputLayer L ds b p sd)"
| connected: "reachable L ds b p sd s \<Longrightarrow> Connect s inputs outputs = Inr (ok, s') \<Longrightarrow>
    reachable L ds b p sd s'"
| mode_set: "reachable L ds b p sd s \<Longrightarrow> reachable L ds b p sd (SetTestingMode s t)"
| redone: "reachable L ds b p sd s \<Longrightarrow> reachable L ds b p sd (RedoPermutation L s)"
| fed: "reachable L ds b p sd s \<Longrightarrow> FeedForward L s st = Inr (lgs, s', st') \<Longrightarrow>
    reachable L ds b p sd s'"
| halted: "reachable L ds b p sd s \<Longrightarrow> FeedForward L s st = Inl (e, s', st') \<Longrightarrow>
    reachable L ds b p sd s'"
| propagated: "reachable L ds b p sd s \<Longrightarrow> reachable L ds b p sd (BackPropagate s)"

text \<open>
  The layer without its bindings: two layers that agree on it differ at most in the
  tensors they are connected to.
\<close>

definition unbound :: "'g layer \<Rightarrow> 'g layer" where
  "unbound s =
     s\<lparr>data_output := None, label_output := None, helper_output := None,
       localized_error_output := None\<rparr>"

text \<open>The layer is connected to a tensor of loss weights of width \<open>W\<close> and height \<open>H\<close>.\<close>

definition weights_shape :: "'g layer \<Rightarrow> store \<Rightarrow> nat \<Rightarrow> nat \<Rightarrow> bool" where
  "weights_shape s st W H =
     (case localized_error_output s of
        None \<Rightarrow> False
      | Some w \<Rightarrow> w < length st \<and> width (data (st ! w)) = W \<and> height (data (st ! w)) = H)"

text \<open>
  The three tensors that \<^verbatim>\<open>FeedForward\<close> dereferences are tensors of the store.
\<close>

definition bound_in :: "'g layer \<Rightarrow> store \<Rightarrow> bool" where
  "bound_in s st =
     (deref st (data_output s) \<noteq> None \<and> deref st (label_output s) \<noteq> None \<and>
      deref st (localized_error_output s) \<noteq> None)"

subsection \<open>What is asked of the collaborators\<close>

text \<open>\<^verbatim>\<open>std::shuffle\<close> reorders the elements of the range it is given.\<close>

definition shuffle_permutes :: "'g stdlib \<Rightarrow> bool" where
  "shuffle_permutes L = (\<forall>v g. mset (fst (shuffle L v g)) = mset v)"

text \<open>
  A training fetch fills the tensors it is given: it keeps the size of the store and the
  width and height of the tensor of the loss weights.
\<close>

definition keeps_geometry :: "Dataset \<Rightarrow> bool" where
  "keeps_geometry ds =
     (\<forall>st d l w k i. w < length st \<longrightarrow>
        length (snd (GetTrainingSample ds st d l w k i)) = length st \<and>
        width (data (snd (GetTrainingSample ds st d l w k i) ! w)) = width (data (st ! w)) \<and>
        height (data (snd (GetTrainingSample ds st d l w k i) ! w)) = height (data (st ! w)))"

text \<open>The training fetch of the index \<open>i\<close> succeeds, whatever the tensors and the slot.\<close>

definition serves :: "Dataset \<Rightarrow> uint \<Rightarrow> bool" where
  "serves ds i = (\<forall>st d l w k. fst (GetTrainingSample ds st d l w k i))"


subsection \<open>Observations\<close>

text \<open>The slots of a run that returned, in order.\<close>

definition logs :: "'h + (slot_log list \<times> 'a) \<Rightarrow> slot_log list option" where
  "logs r = (case r of Inl h \<Rightarrow> None | Inr (lgs, x) \<Rightarrow> Some lgs)"

text \<open>
  The layer that an outcome leaves behind, whether the call returned or not, and the
  outcome without the store and the bindings of the layer: what two runs in two stores
  can have in common.
\<close>

definition layer_after :: "'g halt + ('a \<times> 'g layer \<times> store) \<Rightarrow> 'g layer" where
  "layer_after r = (case r of Inl (e, s, st) \<Rightarrow> s | Inr (x, s, st) \<Rightarrow> s)"

definition outcome ::
  "'g halt + ('a \<times> 'g layer \<times> store) \<Rightarrow> (error \<times> 'g layer) + ('a \<times> 'g layer)" where
  "outcome r =
     (case r of Inl (e, s, st) \<Rightarrow> Inl (e, unbound s) | Inr (x, s, st) \<Rightarrow> Inr (x, unbound s))"

text \<open>
  \<open>advanced L g g'\<close>: the engine \<open>g'\<close> is the engine \<open>g\<close> after some shuffles and draws.
  An engine that is seeded again is set by \<open>mt19937 L\<close>, which is none of the two.
\<close>

inductive advanced :: "'g stdlib \<Rightarrow> 'g \<Rightarrow> 'g \<Rightarrow> bool" for L :: "'g stdlib" and g :: 'g where
  same: "advanced L g g"
| drawn: "advanced L g g1 \<Longrightarrow> advanced L g (snd (dist L g1))"
| shuffled: "advanced L g g1 \<Longrightarrow> advanced L g (snd (shuffle L v g1))"

section \<open>Properties\<close>

subsection \<open>The loops of loss sampling\<close>

text \<open>
  As long as the width and the height of the tensor stay 12 below \<open>2 ^ 32\<close> no counter
  wraps, each loop ends, and its effect is the zeroing of a rectangle, or of the blocks
  whose draw exceeds \<open>p\<close>.
\<close>

lemma unat_plus_12: "unat (y :: uint) + 12 < 2 ^ 32 \<Longrightarrow> unat (y + 12) = unat y + 12"
proof -
  assume "unat y + 12 < 2 ^ 32"
  then have "unat y + unat (12 :: uint) < 2 ^ LENGTH(32)" by simp
  then have "unat (y + 12) = unat y + unat (12 :: uint)" by (simp only: unat_add_lem)
  then show ?thesis by simp
qed

lemma unat_plus_1: "unat (i :: uint) + 1 < 2 ^ 32 \<Longrightarrow> unat (i + 1) = unat i + 1"
proof -
  assume "unat i + 1 < 2 ^ 32"
  then have "unat i + unat (1 :: uint) < 2 ^ LENGTH(32)" by simp
  then have "unat (i + 1) = unat i + unat (1 :: uint)" by (simp only: unat_add_lem)
  then show ?thesis by simp
qed

lemma unat_not_max: "(x :: uint) \<noteq> - 1 \<Longrightarrow> unat x + 1 < 2 ^ 32"
proof -
  assume "x \<noteq> - 1"
  then have "unat x \<noteq> unat (- 1 :: uint)"
    by (simp only: word_unat_eq_iff not_False_eq_True)
  moreover have "unat (- 1 :: uint) = 2 ^ 32 - 1"
    by (simp add: unsigned_minus_1_eq_mask mask_eq_exp_minus_1)
  moreover have "unat x < 2 ^ LENGTH(32)"
    by (rule unsigned_less)
  ultimately show ?thesis
    by simp
qed

lemma Clear_shape [simp]:
  "width (Clear t v n) = width t" "height (Clear t v n) = height t"
  by (simp_all add: Clear_def)

lemma zero_where_cong: "(\<And>a b c d. Z1 a b c d = Z2 a b c d) \<Longrightarrow> zero_where t Z1 = zero_where t Z2"
  by (simp add: zero_where_def)

lemma zero_where_none: "(\<And>a b c d. \<not> Z a b c d) \<Longrightarrow> zero_where t Z = t"
  by (simp add: zero_where_def)

lemma zero_where_twice:
  "zero_where (zero_where t Z1) Z2 = zero_where t (\<lambda>a b c d. Z1 a b c d \<or> Z2 a b c d)"
  by (auto simp add: zero_where_def fun_eq_iff)

lemma zero_where_shape [simp]:
  "width (zero_where t Z) = width t" "height (zero_where t Z) = height t"
  "samples (zero_where t Z) = samples t" "maps (zero_where t Z) = maps t"
  by (simp_all add: zero_where_def)

lemma data_ptr_write_zero:
  "data_ptr_write t x y m n 0 = zero_where t (\<lambda>a b c d. a = x \<and> b = y \<and> c = m \<and> d = n)"
  by (simp add: data_ptr_write_def zero_where_def)

lemma loss_sampling_ix_closed:
  assumes "unat x + 12 < 2 ^ 32"
  shows "loss_sampling_ix sample x iy ix t =
    Some (zero_where t (\<lambda>a b c d. c = 0 \<and> d = sample \<and> b = unat iy \<and>
            unat ix \<le> a \<and> a < unat x + 12 \<and> a < width t))"
proof (induction "unat x + 12 - unat ix" arbitrary: ix t rule: less_induct)
  case less
  have x12: "unat (x + 12) = unat x + 12"
    using assms by (rule unat_plus_12)
  show ?case
  proof (cases "ix < x + 12 \<and> unat ix < width t")
    case True
    then have lt: "unat ix < unat x + 12" and ltw: "unat ix < width t"
      by (simp_all add: word_less_nat_alt x12)
    from lt assms have ix1: "unat (ix + 1) = unat ix + 1"
      by (intro unat_plus_1) simp
    have "loss_sampling_ix sample x iy (ix + 1) (data_ptr_write t (unat ix) (unat iy) 0 sample 0) =
      Some (zero_where (data_ptr_write t (unat ix) (unat iy) 0 sample 0)
        (\<lambda>a b c d. c = 0 \<and> d = sample \<and> b = unat iy \<and>
            unat (ix + 1) \<le> a \<and> a < unat x + 12 \<and> a < width (data_ptr_write t (unat ix) (unat iy) 0 sample 0)))"
      using lt ix1 by (intro less.hyps) simp
    also have "\<dots> = Some (zero_where t (\<lambda>a b c d. c = 0 \<and> d = sample \<and> b = unat iy \<and>
            unat ix \<le> a \<and> a < unat x + 12 \<and> a < width t))"
      unfolding data_ptr_write_zero zero_where_twice zero_where_shape ix1 option.inject
      using lt ltw by (intro zero_where_cong) auto
    finally show ?thesis
      using True by (subst loss_sampling_ix.simps) simp
  next
    case False
    then have "\<not> (unat ix < unat x + 12 \<and> unat ix < width t)"
      by (simp add: word_less_nat_alt x12)
    then have "zero_where t (\<lambda>a b c d. c = 0 \<and> d = sample \<and> b = unat iy \<and>
            unat ix \<le> a \<and> a < unat x + 12 \<and> a < width t) = t"
      by (intro zero_where_none) auto
    then show ?thesis
      by (subst loss_sampling_ix.simps) (simp only: False if_False)
  qed
qed


lemma loss_sampling_iy_closed:
  assumes "unat x + 12 < 2 ^ 32" and "unat y + 12 < 2 ^ 32"
  shows "loss_sampling_iy sample x y iy t =
    Some (zero_where t (\<lambda>a b c d. c = 0 \<and> d = sample \<and>
            unat x \<le> a \<and> a < unat x + 12 \<and> a < width t \<and>
            unat iy \<le> b \<and> b < unat y + 12 \<and> b < height t))"
proof (induction "unat y + 12 - unat iy" arbitrary: iy t rule: less_induct)
  case less
  have y12: "unat (y + 12) = unat y + 12"
    using assms(2) by (rule unat_plus_12)
  show ?case
  proof (cases "iy < y + 12 \<and> unat iy < height t")
    case True
    then have lt: "unat iy < unat y + 12" and lth: "unat iy < height t"
      by (simp_all add: word_less_nat_alt y12)
    from lt assms have iy1: "unat (iy + 1) = unat iy + 1"
      by (intro unat_plus_1) simp
    define t1 where "t1 = zero_where t (\<lambda>a b c d. c = 0 \<and> d = sample \<and> b = unat iy \<and>
            unat x \<le> a \<and> a < unat x + 12 \<and> a < width t)"
    have row: "loss_sampling_ix sample x iy x t = Some t1"
      unfolding t1_def using assms(1) by (rule loss_sampling_ix_closed)
    have "loss_sampling_iy sample x y (iy + 1) t1 =
      Some (zero_where t1 (\<lambda>a b c d. c = 0 \<and> d = sample \<and>
            unat x \<le> a \<and> a < unat x + 12 \<and> a < width t1 \<and>
            unat (iy + 1) \<le> b \<and> b < unat y + 12 \<and> b < height t1))"
      using lt iy1 by (intro less.hyps) simp
    also have "\<dots> = Some (zero_where t (\<lambda>a b c d. c = 0 \<and> d = sample \<and>
            unat x \<le> a \<and> a < unat x + 12 \<and> a < width t \<and>
            unat iy \<le> b \<and> b < unat y + 12 \<and> b < height t))"
      unfolding t1_def zero_where_twice zero_where_shape iy1 option.inject
      using lt lth by (intro zero_where_cong) auto
    finally show ?thesis
      using True row by (subst loss_sampling_iy.simps) simp
  next
    case False
    then have "\<not> (unat iy < unat y + 12 \<and> unat iy < height t)"
      by (simp add: word_less_nat_alt y12)
    then have "zero_where t (\<lambda>a b c d. c = 0 \<and> d = sample \<and>
            unat x \<le> a \<and> a < unat x + 12 \<and> a < width t \<and>
            unat iy \<le> b \<and> b < unat y + 12 \<and> b < height t) = t"
      by (intro zero_where_none) auto
    then show ?thesis
      by (subst loss_sampling_iy.simps) (simp only: False if_False)
  qed
qed

lemma blocks_step: "n < w \<Longrightarrow> blocks (w - n) = Suc (blocks (w - (n + 12)))"
proof (cases "n + 12 \<le> w")
  case True
  then have "w - n + 11 = (w - (n + 12) + 11) + 12"
    by simp
  then show ?thesis
    unfolding blocks_def by (simp only: div_add_self2)
next
  case False
  assume "n < w"
  with False have "12 * 1 \<le> w - n + 11" and "w - n + 11 < 12 * Suc 1"
    by simp_all
  then have "(w - n + 11) div 12 = 1"
    by (rule div_nat_eqI)
  with False show ?thesis
    by (simp add: blocks_def)
qed

lemma draw_0: "draw L g 0 = fst (dist L g)"
  by (simp add: draw_def)

lemma draw_Suc: "draw L g (Suc k) = draw L (snd (dist L g)) k"
  by (simp add: draw_def)

lemma advance_add: "advance L (m + n) g = advance L n (advance L m g)"
  by (induction m arbitrary: g) simp_all

lemma draw_advance: "draw L (advance L m g) k = draw L g (m + k)"
  by (simp add: draw_def advance_add)

lemma div12_first: "n \<le> a \<Longrightarrow> a < n + 12 \<Longrightarrow> (a - n) div 12 = (0 :: nat)"
  by simp

lemma div12_later: "n + 12 \<le> a \<Longrightarrow> (a - n) div 12 = Suc ((a - (n + 12)) div 12)"
proof -
  assume "n + 12 \<le> a"
  then have "a - n = (a - (n + 12)) + 12"
    by simp
  then show ?thesis
    by (simp only: div_add_self2)
qed

lemma loss_sampling_x_closed:
  assumes "width t + 12 \<le> 2 ^ 32" and "unat y + 12 < 2 ^ 32"
  shows "loss_sampling_x L p sample y x t g =
    Some (zero_where t (\<lambda>a b c d. c = 0 \<and> d = sample \<and>
            unat y \<le> b \<and> b < unat y + 12 \<and> b < height t \<and>
            unat x \<le> a \<and> a < width t \<and> p < draw L g ((a - unat x) div 12)),
          advance L (blocks (width t - unat x)) g)"
  using assms(1)
proof (induction "width t - unat x" arbitrary: x t g rule: less_induct)
  case less
  show ?case
  proof (cases "unat x < width t")
    case True
    with less.prems have x12: "unat x + 12 < 2 ^ 32"
      by simp
    then have ux12: "unat (x + 12) = unat x + 12"
      by (rule unat_plus_12)
    define t1 where "t1 = (if p < fst (dist L g)
      then zero_where t (\<lambda>a b c d. c = 0 \<and> d = sample \<and>
            unat x \<le> a \<and> a < unat x + 12 \<and> a < width t \<and>
            unat y \<le> b \<and> b < unat y + 12 \<and> b < height t)
      else t)"
    have block: "(if p < fst (dist L g) then loss_sampling_iy sample x y y t else Some t) = Some t1"
      unfolding t1_def using loss_sampling_iy_closed [OF x12 assms(2), of sample y t] by simp
    have shape: "width t1 = width t" "height t1 = height t"
      by (simp_all add: t1_def)
    have "loss_sampling_x L p sample y (x + 12) t1 (snd (dist L g)) =
      Some (zero_where t1 (\<lambda>a b c d. c = 0 \<and> d = sample \<and>
            unat y \<le> b \<and> b < unat y + 12 \<and> b < height t1 \<and>
            unat (x + 12) \<le> a \<and> a < width t1 \<and>
            p < draw L (snd (dist L g)) ((a - unat (x + 12)) div 12)),
          advance L (blocks (width t1 - unat (x + 12))) (snd (dist L g)))"
      using True less.prems by (intro less.hyps) (simp_all add: shape ux12)
    also have "zero_where t1 (\<lambda>a b c d. c = 0 \<and> d = sample \<and>
            unat y \<le> b \<and> b < unat y + 12 \<and> b < height t1 \<and>
            unat (x + 12) \<le> a \<and> a < width t1 \<and>
            p < draw L (snd (dist L g)) ((a - unat (x + 12)) div 12)) =
        zero_where t (\<lambda>a b c d. c = 0 \<and> d = sample \<and>
            unat y \<le> b \<and> b < unat y + 12 \<and> b < height t \<and>
            unat x \<le> a \<and> a < width t \<and> p < draw L g ((a - unat x) div 12))"
    proof (cases "p < fst (dist L g)")
      case True
      have "zero_where t (\<lambda>a b c d.
            (c = 0 \<and> d = sample \<and> unat x \<le> a \<and> a < unat x + 12 \<and> a < width t \<and>
             unat y \<le> b \<and> b < unat y + 12 \<and> b < height t) \<or>
            (c = 0 \<and> d = sample \<and> unat y \<le> b \<and> b < unat y + 12 \<and> b < height t \<and>
             unat x + 12 \<le> a \<and> a < width t \<and>
             p < draw L (snd (dist L g)) ((a - (unat x + 12)) div 12))) =
        zero_where t (\<lambda>a b c d. c = 0 \<and> d = sample \<and>
            unat y \<le> b \<and> b < unat y + 12 \<and> b < height t \<and>
            unat x \<le> a \<and> a < width t \<and> p < draw L g ((a - unat x) div 12))"
      proof (intro zero_where_cong)
        fix a b c d :: nat
        show "((c = 0 \<and> d = sample \<and> unat x \<le> a \<and> a < unat x + 12 \<and> a < width t \<and>
             unat y \<le> b \<and> b < unat y + 12 \<and> b < height t) \<or>
            (c = 0 \<and> d = sample \<and> unat y \<le> b \<and> b < unat y + 12 \<and> b < height t \<and>
             unat x + 12 \<le> a \<and> a < width t \<and>
             p < draw L (snd (dist L g)) ((a - (unat x + 12)) div 12))) =
          (c = 0 \<and> d = sample \<and> unat y \<le> b \<and> b < unat y + 12 \<and> b < height t \<and>
            unat x \<le> a \<and> a < width t \<and> p < draw L g ((a - unat x) div 12))"
        proof (cases "unat x + 12 \<le> a")
          case True
          then show ?thesis by (simp add: div12_later draw_Suc)
        next
          case far: False
          show ?thesis
          proof (cases "unat x \<le> a")
            case True
            with far \<open>p < fst (dist L g)\<close> show ?thesis
              by (simp add: div12_first draw_0) blast
          next
            case False
            then show ?thesis by simp
          qed
        qed
      qed
      then show ?thesis
        by (simp add: t1_def True zero_where_twice ux12)
    next
      case False
      have "zero_where t (\<lambda>a b c d. c = 0 \<and> d = sample \<and>
            unat y \<le> b \<and> b < unat y + 12 \<and> b < height t \<and>
            unat x + 12 \<le> a \<and> a < width t \<and>
            p < draw L (snd (dist L g)) ((a - (unat x + 12)) div 12)) =
        zero_where t (\<lambda>a b c d. c = 0 \<and> d = sample \<and>
            unat y \<le> b \<and> b < unat y + 12 \<and> b < height t \<and>
            unat x \<le> a \<and> a < width t \<and> p < draw L g ((a - unat x) div 12))"
      proof (intro zero_where_cong)
        fix a b c d :: nat
        show "(c = 0 \<and> d = sample \<and> unat y \<le> b \<and> b < unat y + 12 \<and> b < height t \<and>
            unat x + 12 \<le> a \<and> a < width t \<and>
            p < draw L (snd (dist L g)) ((a - (unat x + 12)) div 12)) =
          (c = 0 \<and> d = sample \<and> unat y \<le> b \<and> b < unat y + 12 \<and> b < height t \<and>
            unat x \<le> a \<and> a < width t \<and> p < draw L g ((a - unat x) div 12))"
        proof (cases "unat x + 12 \<le> a")
          case True
          then show ?thesis by (simp add: div12_later draw_Suc)
        next
          case far: False
          show ?thesis
          proof (cases "unat x \<le> a")
            case True
            with far False show ?thesis by (simp add: div12_first draw_0)
          next
            case False
            then show ?thesis by simp
          qed
        qed
      qed
      with False show ?thesis
        by (simp add: t1_def ux12)
    qed
    also have "advance L (blocks (width t1 - unat (x + 12))) (snd (dist L g)) =
        advance L (blocks (width t - unat x)) g"
      using True by (simp add: shape ux12 blocks_step)
    finally show ?thesis
      using True block by (subst loss_sampling_x.simps) simp
  next
    case False
    then have "zero_where t (\<lambda>a b c d. c = 0 \<and> d = sample \<and>
            unat y \<le> b \<and> b < unat y + 12 \<and> b < height t \<and>
            unat x \<le> a \<and> a < width t \<and> p < draw L g ((a - unat x) div 12)) = t"
      by (intro zero_where_none) auto
    moreover from False have "blocks (width t - unat x) = 0"
      by (simp add: blocks_def)
    ultimately show ?thesis
      by (subst loss_sampling_x.simps) (simp only: False if_False advance.simps)
  qed
qed


lemma loss_sampling_y_closed:
  assumes "width t + 12 \<le> 2 ^ 32"
  shows "height t + 12 \<le> 2 ^ 32 \<Longrightarrow> loss_sampling_y L p sample y t g =
    Some (zero_where t (\<lambda>a b c d. c = 0 \<and> d = sample \<and>
            unat y \<le> b \<and> b < height t \<and> a < width t \<and>
            p < draw L g (((b - unat y) div 12) * blocks (width t) + a div 12)),
          advance L (blocks (height t - unat y) * blocks (width t)) g)"
  using assms
proof (induction "height t - unat y" arbitrary: y t g rule: less_induct)
  case less
  show ?case
  proof (cases "unat y < height t")
    case True
    with less.prems have y12: "unat y + 12 < 2 ^ 32"
      by simp
    then have uy12: "unat (y + 12) = unat y + 12"
      by (rule unat_plus_12)
    define t1 where "t1 = zero_where t (\<lambda>a b c d. c = 0 \<and> d = sample \<and>
            unat y \<le> b \<and> b < unat y + 12 \<and> b < height t \<and>
            unat (0 :: uint) \<le> a \<and> a < width t \<and> p < draw L g ((a - unat (0 :: uint)) div 12))"
    define g1 where "g1 = advance L (blocks (width t - unat (0 :: uint))) g"
    have row: "loss_sampling_x L p sample y 0 t g = Some (t1, g1)"
      unfolding t1_def g1_def using less.prems(2) y12 by (rule loss_sampling_x_closed)
    have shape: "width t1 = width t" "height t1 = height t"
      by (simp_all add: t1_def)
    have "loss_sampling_y L p sample (y + 12) t1 g1 =
      Some (zero_where t1 (\<lambda>a b c d. c = 0 \<and> d = sample \<and>
            unat (y + 12) \<le> b \<and> b < height t1 \<and> a < width t1 \<and>
            p < draw L g1 (((b - unat (y + 12)) div 12) * blocks (width t1) + a div 12)),
          advance L (blocks (height t1 - unat (y + 12)) * blocks (width t1)) g1)"
      using True less.prems by (intro less.hyps) (simp_all add: shape uy12)
    also have "zero_where t1 (\<lambda>a b c d. c = 0 \<and> d = sample \<and>
            unat (y + 12) \<le> b \<and> b < height t1 \<and> a < width t1 \<and>
            p < draw L g1 (((b - unat (y + 12)) div 12) * blocks (width t1) + a div 12)) =
        zero_where t (\<lambda>a b c d. c = 0 \<and> d = sample \<and>
            unat y \<le> b \<and> b < height t \<and> a < width t \<and>
            p < draw L g (((b - unat y) div 12) * blocks (width t) + a div 12))"
      unfolding t1_def zero_where_twice zero_where_shape uy12 g1_def draw_advance
    proof (intro zero_where_cong)
      fix a b c d :: nat
      show "((c = 0 \<and> d = sample \<and> unat y \<le> b \<and> b < unat y + 12 \<and> b < height t \<and>
            unat (0 :: uint) \<le> a \<and> a < width t \<and> p < draw L g ((a - unat (0 :: uint)) div 12)) \<or>
          (c = 0 \<and> d = sample \<and> unat y + 12 \<le> b \<and> b < height t \<and> a < width t \<and>
            p < draw L g (blocks (width t - unat (0 :: uint)) +
              ((b - (unat y + 12)) div 12 * blocks (width t) + a div 12)))) =
        (c = 0 \<and> d = sample \<and> unat y \<le> b \<and> b < height t \<and> a < width t \<and>
            p < draw L g (((b - unat y) div 12) * blocks (width t) + a div 12))"
      proof (cases "unat y + 12 \<le> b")
        case True
        then show ?thesis by (simp add: div12_later add.assoc)
      next
        case far: False
        show ?thesis
        proof (cases "unat y \<le> b")
          case True
          with far show ?thesis by (simp add: div12_first)
        next
          case False
          then show ?thesis by simp
        qed
      qed
    qed
    also have "advance L (blocks (height t1 - unat (y + 12)) * blocks (width t1)) g1 =
        advance L (blocks (height t - unat y) * blocks (width t)) g"
      using True by (simp add: shape uy12 blocks_step [of "unat y"] g1_def advance_add)
    finally show ?thesis
      using True row by (subst loss_sampling_y.simps) simp
  next
    case False
    then have "zero_where t (\<lambda>a b c d. c = 0 \<and> d = sample \<and>
            unat y \<le> b \<and> b < height t \<and> a < width t \<and>
            p < draw L g (((b - unat y) div 12) * blocks (width t) + a div 12)) = t"
      by (intro zero_where_none) auto
    moreover from False have "blocks (height t - unat y) = 0"
      by (simp add: blocks_def)
    ultimately show ?thesis
      by (subst loss_sampling_y.simps) (simp only: False if_False advance.simps mult_0)
  qed
qed

lemma loss_sampling_closed:
  assumes "width t + 12 \<le> 2 ^ 32" and "height t + 12 \<le> 2 ^ 32"
  shows "loss_sampling_y L p sample 0 t g =
    Some (block_sampled L p sample t g, advance L (blocks (height t) * blocks (width t)) g)"
  using loss_sampling_y_closed [OF assms, of L p sample 0 g]
  by (simp add: block_sampled_def conj_ac)

text \<open>
  The bound is needed. The counter \<open>y\<close> is compared as a \<open>size_t\<close> with a height that
  no 32-bit counter reaches, so on an empty tensor of \<open>2 ^ 32\<close> rows or more the outer loop
  steps for ever.
\<close>

lemma loss_sampling_y_endless:
  assumes returns: "loss_sampling_y L p sample y t g = Some r"
  shows "\<not> (2 ^ 32 \<le> height t \<and> width t = 0)"
proof (rule loss_sampling_y.raw_induct
    [where P = "\<lambda>L p sample y t g r. \<not> (2 ^ 32 \<le> height t \<and> width t = 0)", OF _ returns])
  fix f L p sample and y :: uint and t g r
  assume IH: "\<And>L p sample y t g r. f L p sample y t g = Some r \<Longrightarrow>
      \<not> (2 ^ 32 \<le> height t \<and> width t = 0)"
    and body: "(if unat y < height t
      then Option.bind (loss_sampling_x L p sample y 0 t g)
            (\<lambda>(t1, g1). f L p sample (y + 12) t1 g1)
      else Some (t, g)) = Some r"
  show "\<not> (2 ^ 32 \<le> height t \<and> width t = 0)"
  proof
    assume big: "2 ^ 32 \<le> height t \<and> width t = 0"
    have "unat y < 2 ^ LENGTH(32)"
      by (rule unsigned_less)
    with big have inside: "unat y < height t"
      by simp
    from big have row: "loss_sampling_x L p sample y 0 t g = Some (t, g)"
      by (subst loss_sampling_x.simps) simp
    from body inside row have "f L p sample (y + 12) t g = Some r"
      by simp
    from IH [OF this] big show False
      by simp
  qed
qed

lemma loss_sampling_y_no_return:
  "2 ^ 32 \<le> height t \<Longrightarrow> width t = 0 \<Longrightarrow> loss_sampling_y L p sample y t g = None"
  using loss_sampling_y_endless [of L p sample y t g]
  by (cases "loss_sampling_y L p sample y t g") auto

subsection \<open>One batch slot\<close>

lemma block_sampled_shape [simp]:
  "width (block_sampled L p sample t g) = width t"
  "height (block_sampled L p sample t g) = height t"
  by (simp_all add: block_sampled_def)

lemma sample_weights_idle:
  "testing' \<or> force_no_weight \<Longrightarrow>
   sample_weights L testing' force_no_weight p sample t g =
     Some (if force_no_weight then Clear t 0 sample else t, g)"
  by (auto simp add: sample_weights_def)

lemma sample_weights_training:
  "\<not> testing' \<Longrightarrow> \<not> force_no_weight \<Longrightarrow> width t + 12 \<le> 2 ^ 32 \<Longrightarrow> height t + 12 \<le> 2 ^ 32 \<Longrightarrow>
   sample_weights L testing' force_no_weight p sample t g =
     Some (block_sampled L p sample t g, advance L (blocks (height t) * blocks (width t)) g)"
  by (simp add: sample_weights_def loss_sampling_closed)

lemma block_sampled_keep_all:
  assumes "\<And>g. fst (dist L g) \<le> p"
  shows "block_sampled L p sample t g = t"
  unfolding block_sampled_def
  using assms by (intro zero_where_none) (simp add: draw_def not_less)

lemma select_element_testing:
  "testing s \<Longrightarrow>
   select_element L s =
     Inr (if elements_testing s \<le> current_element_testing s + 1 then 0 else current_element_testing s,
          elements_testing s \<le> current_element_testing s + 1, False,
          s\<lparr>current_element_testing := current_element_testing s + 1\<rparr>)"
  by (simp add: select_element_def Let_def)

text \<open>
  In testing mode no slot hands the Dataset the last testing index with its weights: the
  slot whose cursor stands on it is already padding.
\<close>

lemma testing_mode_skips_last_index:
  assumes "testing s" and "select_element L s = Inr (sel, fnw, r, s')"
  shows "fnw \<or> sel \<noteq> elements_testing s - 1"
  using assms by (auto simp add: select_element_testing)

lemma select_element_training:
  assumes "\<not> testing s" and "unat (current_element s) < length (perm s)"
    and "length (perm s) < 2 ^ 32"
  shows "select_element L s =
     Inr (perm s ! unat (current_element s), False,
          Suc (unat (current_element s)) = length (perm s),
          if Suc (unat (current_element s)) = length (perm s)
          then RedoPermutation L (s\<lparr>current_element := 0\<rparr>)
          else s\<lparr>current_element := current_element s + 1\<rparr>)"
proof -
  from assms(2,3) have "unat (current_element s + 1) = unat (current_element s) + 1"
    by (intro unat_plus_1) simp
  with assms show ?thesis
    by (auto simp add: select_element_def vector_at_def Let_def)
qed

lemma select_element_training_out_of_range:
  "\<not> testing s \<Longrightarrow> length (perm s) \<le> unat (current_element s) \<Longrightarrow>
   select_element L s = Inl OutOfRange"
  by (simp add: select_element_def vector_at_def)

lemma RedoPermutation_fields [simp]:
  "testing (RedoPermutation L s) = testing s"
  "dataset (RedoPermutation L s) = dataset s"
  "batch_size (RedoPermutation L s) = batch_size s"
  "loss_sampling_p (RedoPermutation L s) = loss_sampling_p s"
  "elements_training (RedoPermutation L s) = elements_training s"
  "elements_testing (RedoPermutation L s) = elements_testing s"
  "current_element (RedoPermutation L s) = current_element s"
  "current_element_testing (RedoPermutation L s) = current_element_testing s"
  "data_output (RedoPermutation L s) = data_output s"
  "label_output (RedoPermutation L s) = label_output s"
  "helper_output (RedoPermutation L s) = helper_output s"
  "localized_error_output (RedoPermutation L s) = localized_error_output s"
  "perm (RedoPermutation L s) = fst (shuffle L (perm s) (generator s))"
  "generator (RedoPermutation L s) = snd (shuffle L (perm s) (generator s))"
  by (simp_all add: RedoPermutation_def split_beta)

lemma select_element_fields:
  assumes "select_element L s = Inr (sel, fnw, r, s1)"
  shows "testing s1 = testing s" "dataset s1 = dataset s" "batch_size s1 = batch_size s"
    "loss_sampling_p s1 = loss_sampling_p s" "elements_training s1 = elements_training s"
    "elements_testing s1 = elements_testing s" "data_output s1 = data_output s"
    "label_output s1 = label_output s" "helper_output s1 = helper_output s"
    "localized_error_output s1 = localized_error_output s"
  using assms
  by (auto simp add: select_element_def Let_def vector_at_def split: if_splits)

lemma select_element_training_no_padding:
  "\<not> testing s \<Longrightarrow> select_element L s = Inr (sel, fnw, r, s1) \<Longrightarrow> \<not> fnw"
  by (auto simp add: select_element_def Let_def vector_at_def split: if_splits)

text \<open>What a slot that returned has done, and what a slot does.\<close>

lemma slot_Inr:
  assumes "slot L s st sample = Inr (lg, s', st')"
  obtains sel fnw r s1 d l w st1 where
    "select_element L s = Inr (sel, fnw, r, s1)"
    "deref st (data_output s1) = Some d" "deref st (label_output s1) = Some l"
    "deref st (localized_error_output s1) = Some w"
    "fetch s1 st d l w sample sel = (True, st1)"
    "lg = Slot sel fnw r"
    "testing s1 \<and> \<not> fnw \<longrightarrow> s' = s1 \<and> st' = st1"
    "\<not> (testing s1 \<and> \<not> fnw) \<longrightarrow>
       (\<exists>w1 t g. deref st1 (localized_error_output s1) = Some w1 \<and>
          sample_weights L (testing s1) fnw (loss_sampling_p s1) sample (data (st1 ! w1))
            (generator s1) = Some (t, g) \<and>
          s' = s1\<lparr>generator := g\<rparr> \<and> st' = st1[w1 := (st1 ! w1)\<lparr>data := t\<rparr>])"
proof -
  from assms obtain sel fnw r s1 where sel: "select_element L s = Inr (sel, fnw, r, s1)"
    by (cases "select_element L s") (auto simp add: slot_def)
  from assms sel obtain d where d: "deref st (data_output s1) = Some d"
    by (cases "deref st (data_output s1)") (auto simp add: slot_def)
  from assms sel d obtain l where l: "deref st (label_output s1) = Some l"
    by (cases "deref st (label_output s1)") (auto simp add: slot_def)
  from assms sel d l obtain w where w: "deref st (localized_error_output s1) = Some w"
    by (cases "deref st (localized_error_output s1)") (auto simp add: slot_def)
  obtain success st1 where f: "fetch s1 st d l w sample sel = (success, st1)"
    by (cases "fetch s1 st d l w sample sel")
  from assms sel d l w f have success: success
    by (cases success) (auto simp add: slot_def FATAL_def)
  have rest: "(if testing s1 \<and> \<not> fnw
           then Inr (Slot sel fnw r, s1, st1)
           else (case deref st1 (localized_error_output s1) of
                   None \<Rightarrow> Inl (NullPointer, s1, st1)
                 | Some w1 \<Rightarrow>
                     (case sample_weights L (testing s1) fnw
                             (loss_sampling_p s1) sample (data (st1 ! w1)) (generator s1) of
                        None \<Rightarrow> Inl (NoReturn, s1, st1)
                      | Some (t, g) \<Rightarrow>
                          Inr (Slot sel fnw r, s1\<lparr>generator := g\<rparr>,
                               st1[w1 := (st1 ! w1)\<lparr>data := t\<rparr>])))) = Inr (lg, s', st')"
    using assms sel d l w f success by (simp add: slot_def)
  show ?thesis
  proof (cases "testing s1 \<and> \<not> fnw")
    case True
    with rest have "lg = Slot sel fnw r" "s' = s1 \<and> st' = st1"
      by simp_all
    with sel d l w f success True show ?thesis
      by (intro that [of sel fnw r s1 d l w st1]) simp_all
  next
    case False
    with rest obtain w1 where w1: "deref st1 (localized_error_output s1) = Some w1"
      by (cases "deref st1 (localized_error_output s1)") auto
    with rest False obtain t g where
      sw: "sample_weights L (testing s1) fnw (loss_sampling_p s1) sample (data (st1 ! w1))
             (generator s1) = Some (t, g)"
      by (cases "sample_weights L (testing s1) fnw (loss_sampling_p s1) sample (data (st1 ! w1))
             (generator s1)") auto
    with rest False w1 have "lg = Slot sel fnw r" "s' = s1\<lparr>generator := g\<rparr>"
      "st' = st1[w1 := (st1 ! w1)\<lparr>data := t\<rparr>]"
      by simp_all
    with sel d l w f success False w1 sw show ?thesis
      by (intro that [of sel fnw r s1 d l w st1]) auto
  qed
qed

lemma slot_eval:
  assumes "select_element L s = Inr (sel, fnw, r, s1)"
    and "deref st (data_output s1) = Some d" and "deref st (label_output s1) = Some l"
    and "deref st (localized_error_output s1) = Some w"
    and "fetch s1 st d l w sample sel = (True, st1)"
    and "w < length st1"
    and "sample_weights L (testing s1) fnw (loss_sampling_p s1) sample (data (st1 ! w)) (generator s1) = Some (t, g)"
  shows "slot L s st sample =
    (if testing s1 \<and> \<not> fnw then Inr (Slot sel fnw r, s1, st1)
     else Inr (Slot sel fnw r, s1\<lparr>generator := g\<rparr>, st1[w := (st1 ! w)\<lparr>data := t\<rparr>]))"
proof -
  from assms(4) have "localized_error_output s1 = Some w"
    by (simp add: deref_def split: option.splits if_splits)
  with assms(6) have "deref st1 (localized_error_output s1) = Some w"
    by (simp add: deref_def)
  with assms show ?thesis
    by (simp add: slot_def)
qed

lemma slot_fatal:
  assumes "select_element L s = Inr (sel, fnw, r, s1)"
    and "deref st (data_output s1) = Some d" and "deref st (label_output s1) = Some l"
    and "deref st (localized_error_output s1) = Some w"
    and "fetch s1 st d l w sample sel = (False, st1)"
  shows "slot L s st sample = Inl (Fatal ''Cannot load samples from Dataset!'', s1, st1)"
  using assms by (simp add: slot_def FATAL_def)

lemma slots_append:
  "slots L s st (xs @ ys) =
     (case slots L s st xs of
        Inl h \<Rightarrow> Inl h
      | Inr (lgs, s1, st1) \<Rightarrow>
          (case slots L s1 st1 ys of
             Inl h \<Rightarrow> Inl h
           | Inr (lgs', s2, st2) \<Rightarrow> Inr (lgs @ lgs', s2, st2)))"
  by (induction xs arbitrary: s st) (auto split: sum.splits prod.splits)

text \<open>A slot in training mode, and the slots up to the end of the permutation.\<close>

lemma slot_training:
  assumes "\<not> testing s" and "length (perm s) < 2 ^ 32"
    and "slot L s st sample = Inr (lg, s', st')"
  shows "unat (current_element s) < length (perm s)"
    and "lg = Slot (perm s ! unat (current_element s)) False
                (unat (current_element s) + 1 = length (perm s))"
    and "\<not> testing s'"
    and "unat (current_element s) + 1 = length (perm s) \<Longrightarrow>
           current_element s' = 0 \<and> (\<exists>g. perm s' = fst (shuffle L (perm s) g))"
    and "unat (current_element s) + 1 \<noteq> length (perm s) \<Longrightarrow>
           unat (current_element s') = unat (current_element s) + 1 \<and> perm s' = perm s"
proof -
  from assms(3) obtain sel fnw r s1 d l w st1 where
    sel: "select_element L s = Inr (sel, fnw, r, s1)"
    and "deref st (data_output s1) = Some d" and "deref st (label_output s1) = Some l"
    and "deref st (localized_error_output s1) = Some w"
    and "fetch s1 st d l w sample sel = (True, st1)"
    and lg: "lg = Slot sel fnw r"
    and idle: "testing s1 \<and> \<not> fnw \<longrightarrow> s' = s1 \<and> st' = st1"
    and busy: "\<not> (testing s1 \<and> \<not> fnw) \<longrightarrow>
       (\<exists>w1 t g. deref st1 (localized_error_output s1) = Some w1 \<and>
          sample_weights L (testing s1) fnw (loss_sampling_p s1) sample (data (st1 ! w1))
            (generator s1) = Some (t, g) \<and>
          s' = s1\<lparr>generator := g\<rparr> \<and> st' = st1[w1 := (st1 ! w1)\<lparr>data := t\<rparr>])"
    by (rule slot_Inr)
  show inside: "unat (current_element s) < length (perm s)"
  proof (rule ccontr)
    assume "\<not> unat (current_element s) < length (perm s)"
    with assms(1) have "select_element L s = Inl OutOfRange"
      by (intro select_element_training_out_of_range) simp_all
    with sel show False
      by simp
  qed
  from assms(1,2) inside have eq: "select_element L s =
     Inr (perm s ! unat (current_element s), False,
          Suc (unat (current_element s)) = length (perm s),
          if Suc (unat (current_element s)) = length (perm s)
          then RedoPermutation L (s\<lparr>current_element := 0\<rparr>)
          else s\<lparr>current_element := current_element s + 1\<rparr>)"
    by (intro select_element_training)
  with sel have parts: "sel = perm s ! unat (current_element s)" "fnw = False"
    "r = (Suc (unat (current_element s)) = length (perm s))"
    "s1 = (if Suc (unat (current_element s)) = length (perm s)
          then RedoPermutation L (s\<lparr>current_element := 0\<rparr>)
          else s\<lparr>current_element := current_element s + 1\<rparr>)"
    by auto
  from parts lg show "lg = Slot (perm s ! unat (current_element s)) False
                (unat (current_element s) + 1 = length (perm s))"
    by simp
  from sel assms(1) have t1: "\<not> testing s1"
    by (simp add: select_element_fields)
  with busy obtain g where s': "s' = s1\<lparr>generator := g\<rparr>"
    by blast
  with t1 show "\<not> testing s'"
    by simp
  show "current_element s' = 0 \<and> (\<exists>g. perm s' = fst (shuffle L (perm s) g))"
    if "unat (current_element s) + 1 = length (perm s)"
    using that s' parts(4) by auto
  show "unat (current_element s') = unat (current_element s) + 1 \<and> perm s' = perm s"
    if "unat (current_element s) + 1 \<noteq> length (perm s)"
  proof -
    from inside assms(2) have "unat (current_element s + 1) = unat (current_element s) + 1"
      by (intro unat_plus_1) simp
    with that s' parts(4) show ?thesis
      by simp
  qed
qed

lemma training_pass_from:
  assumes "\<not> testing s" and "length (perm s) < 2 ^ 32"
    and "unat (current_element s) + length ss = length (perm s)" and "ss \<noteq> []"
    and "slots L s st ss = Inr (lgs, s', st')"
  shows "map selected lgs = drop (unat (current_element s)) (perm s)
    \<and> map reshuffled lgs = replicate (length ss - 1) False @ [True]
    \<and> map no_weight lgs = replicate (length ss) False
    \<and> current_element s' = 0 \<and> \<not> testing s'
    \<and> (\<exists>g. perm s' = fst (shuffle L (perm s) g))"
  using assms
proof (induction ss arbitrary: s st lgs)
  case Nil
  then show ?case by simp
next
  case (Cons sample rest)
  from Cons.prems(5) obtain lg s1 st1 lgs1 where
    first: "slot L s st sample = Inr (lg, s1, st1)"
    and others: "slots L s1 st1 rest = Inr (lgs1, s', st')"
    and lgs: "lgs = lg # lgs1"
    by (auto split: sum.splits prod.splits)
  note step = slot_training [OF Cons.prems(1,2) first]
  from step(1) have drop: "drop (unat (current_element s)) (perm s) =
      perm s ! unat (current_element s) # drop (Suc (unat (current_element s))) (perm s)"
    by (simp add: Cons_nth_drop_Suc)
  show ?case
  proof (cases rest)
    case Nil
    with Cons.prems(3) have last: "unat (current_element s) + 1 = length (perm s)"
      by simp
    from Nil others have "lgs1 = []" "s' = s1"
      by simp_all
    with step(2,3) step(4) [OF last] last lgs Nil drop show ?thesis
      by simp
  next
    case (Cons sample' rest')
    with Cons.prems(3) have more: "unat (current_element s) + 1 \<noteq> length (perm s)"
      by simp
    note s1 = step(5) [OF more]
    from Cons Cons.prems(2,3) s1 step(3)
    have "map selected lgs1 = drop (unat (current_element s1)) (perm s1)
      \<and> map reshuffled lgs1 = replicate (length rest - 1) False @ [True]
      \<and> map no_weight lgs1 = replicate (length rest) False
      \<and> current_element s' = 0 \<and> \<not> testing s'
      \<and> (\<exists>g. perm s' = fst (shuffle L (perm s1) g))"
      by (intro Cons.IH [OF _ _ _ _ others]) simp_all
    with s1 step(1,2) more lgs Cons drop show ?thesis
      by simp
  qed
qed

lemma FeedForward_calls_2:
  "FeedForward_calls L 2 s st =
     (case FeedForward L s st of
        Inl h \<Rightarrow> Inl h
      | Inr (lgs, s1, st1) \<Rightarrow>
          (case FeedForward L s1 st1 of
             Inl h \<Rightarrow> Inl h
           | Inr (lgs', s2, st2) \<Rightarrow> Inr (lgs @ lgs', s2, st2)))"
  by (simp add: numeral_2_eq_2 split: sum.splits prod.splits)

subsection \<open>The permutation is preserved as a multiset\<close>

lemma ascending_from:
  "i \<le> n \<Longrightarrow> ascending n i p = p @ map word_of_nat [unat i..<unat n]"
proof (induction n i p rule: ascending.induct)
  case (1 n i p)
  show ?case
  proof (cases "i < n")
    case True
    then have lt: "unat i < unat n"
      by (simp add: word_less_nat_alt)
    moreover have "unat n < 2 ^ LENGTH(32)"
      by (rule unsigned_less)
    ultimately have i1: "unat (i + 1) = unat i + 1"
      by (intro unat_plus_1) simp
    with lt have "i + 1 \<le> n"
      by (simp add: word_le_nat_alt)
    with True have "ascending n (i + 1) (p @ [i]) = (p @ [i]) @ map word_of_nat [unat (i + 1)..<unat n]"
      by (intro "1.IH")
    with True lt i1 show ?thesis
      by (subst ascending.simps) (simp add: upt_conv_Cons)
  next
    case False
    with "1.prems" have "i = n"
      by simp
    then show ?thesis
      by (subst ascending.simps) simp
  qed
qed

lemma ascending_all: "ascending n 0 [] = map word_of_nat [0..<unat n]"
  using ascending_from [of 0 n "[]"] by simp

lemma sorted_ascending: "sorted (map word_of_nat [0..<unat (n :: uint)] :: uint list)"
proof -
  have "(word_of_nat i :: uint) \<le> word_of_nat j" if "i \<le> j" and "j < unat n" for i j
  proof -
    have "unat n < 2 ^ LENGTH(32)"
      by (rule unsigned_less)
    with that have "i < 2 ^ 32" "j < 2 ^ 32"
      by simp_all
    with that(1) show ?thesis
      by (simp add: word_of_nat_less_eq_iff take_bit_nat_eq_self)
  qed
  then show ?thesis
    by (simp add: sorted_iff_nth_mono)
qed

lemma shuffle_mset: "shuffle_permutes L \<Longrightarrow> mset (fst (shuffle L v g)) = mset v"
  by (simp add: shuffle_permutes_def)

lemma select_element_mset:
  assumes "shuffle_permutes L" and "select_element L s = Inr (sel, fnw, r, s1)"
  shows "mset (perm s1) = mset (perm s)"
  using assms
  by (auto simp add: select_element_def Let_def vector_at_def shuffle_permutes_def
      split: if_splits)

lemma slot_Inr_mset:
  assumes "shuffle_permutes L" and "slot L s st sample = Inr (lg, s', st')"
  shows "mset (perm s') = mset (perm s)"
proof -
  from assms(2) obtain sel fnw r s1 d l w st1 where
    sel: "select_element L s = Inr (sel, fnw, r, s1)"
    and "deref st (data_output s1) = Some d" and "deref st (label_output s1) = Some l"
    and "deref st (localized_error_output s1) = Some w"
    and "fetch s1 st d l w sample sel = (True, st1)"
    and lg: "lg = Slot sel fnw r"
    and idle: "testing s1 \<and> \<not> fnw \<longrightarrow> s' = s1 \<and> st' = st1"
    and busy: "\<not> (testing s1 \<and> \<not> fnw) \<longrightarrow>
       (\<exists>w1 t g. deref st1 (localized_error_output s1) = Some w1 \<and>
          sample_weights L (testing s1) fnw (loss_sampling_p s1) sample (data (st1 ! w1))
            (generator s1) = Some (t, g) \<and>
          s' = s1\<lparr>generator := g\<rparr> \<and> st' = st1[w1 := (st1 ! w1)\<lparr>data := t\<rparr>])"
    by (rule slot_Inr)
  from idle busy have "perm s' = perm s1"
    by (cases "testing s1 \<and> \<not> fnw") auto
  with select_element_mset [OF assms(1) sel] show ?thesis
    by simp
qed

text \<open>A slot that does not return leaves the layer as it was, or as the selection made it.\<close>

lemma slot_Inl:
  assumes "slot L s st sample = Inl (e, s', st')"
  shows "s' = s \<or> (\<exists>sel fnw r. select_element L s = Inr (sel, fnw, r, s'))"
proof (cases "select_element L s")
  case (Inl e')
  with assms show ?thesis
    by (simp add: slot_def)
next
  case (Inr x)
  then obtain sel fnw r s1 where sel: "select_element L s = Inr (sel, fnw, r, s1)"
    by (cases x) auto
  with assms have "s' = s1"
    by (auto simp add: slot_def FATAL_def Let_def
        split: option.splits prod.splits if_splits)
  with sel show ?thesis
    by blast
qed

lemma slot_Inl_mset:
  assumes "shuffle_permutes L" and "slot L s st sample = Inl (e, s', st')"
  shows "mset (perm s') = mset (perm s)"
  using slot_Inl [OF assms(2)] select_element_mset [OF assms(1)] by auto

lemma slots_mset:
  assumes "shuffle_permutes L"
  shows "slots L s st ss = Inr (lgs, s', st') \<Longrightarrow> mset (perm s') = mset (perm s)"
    and "slots L s st ss = Inl (e, s', st') \<Longrightarrow> mset (perm s') = mset (perm s)"
proof (induction ss arbitrary: s st lgs)
  case Nil
  { case 1 then show ?case by simp }
  { case 2 then show ?case by simp }
next
  case (Cons sample rest)
  { case 1
    then obtain lg s1 st1 lgs1 where
      first: "slot L s st sample = Inr (lg, s1, st1)"
      and others: "slots L s1 st1 rest = Inr (lgs1, s', st')"
      by (auto split: sum.splits prod.splits)
    from Cons.IH(1) [OF others] slot_Inr_mset [OF assms first] show ?case
      by simp }
  { case 2
    show ?case
    proof (cases "slot L s st sample")
      case (Inl h)
      with 2 have "slot L s st sample = Inl (e, s', st')"
        by simp
      with assms show ?thesis
        by (rule slot_Inl_mset)
    next
      case (Inr x)
      then obtain lg s1 st1 where first: "slot L s st sample = Inr (lg, s1, st1)"
        by (cases x) auto
      with 2 have "slots L s1 st1 rest = Inl (e, s', st')"
        by (auto split: sum.splits prod.splits)
      from Cons.IH(2) [OF this] slot_Inr_mset [OF assms first] show ?thesis
        by simp
    qed }
qed

lemma Connect_perm: "Connect s inputs outputs = Inr (ok, s') \<Longrightarrow> perm s' = perm s"
  by (auto simp add: Connect_def vector_at_def Let_def split: if_splits)

lemma reachable_mset:
  assumes "shuffle_permutes L" and "reachable L ds b p sd s"
  shows "mset (perm s) = mset (map word_of_nat [0..<unat (GetTrainingSamples ds)])"
  using assms(2)
proof (induction rule: reachable.induct)
  case constructed
  have "perm (DatasetInputLayer L ds b p sd) =
      fst (shuffle L (ascending (GetTrainingSamples ds) 0 []) (mt19937 L sd))"
    by (simp add: DatasetInputLayer_def)
  with assms(1) have "mset (perm (DatasetInputLayer L ds b p sd)) =
      mset (ascending (GetTrainingSamples ds) 0 [])"
    by (simp add: shuffle_permutes_def)
  then show ?case
    by (simp only: ascending_all)
next
  case (connected s inputs outputs ok s')
  then show ?case by (simp add: Connect_perm)
next
  case (mode_set s t)
  then show ?case by (simp add: SetTestingMode_def)
next
  case (redone s)
  with assms(1) show ?case by (simp add: shuffle_mset)
next
  case (fed s st lgs s' st')
  from slots_mset(1) [OF assms(1)] fed show ?case
    by (simp add: FeedForward_def)
next
  case (halted s st e s' st')
  from slots_mset(2) [OF assms(1)] halted show ?case
    by (simp add: FeedForward_def)
next
  case (propagated s)
  then show ?case by (simp add: BackPropagate_def)
qed

subsection \<open>Layers that differ in their bindings only\<close>













subsection \<open>The layer that a slot leaves behind\<close>

lemma layer_after_simps [simp]:
  "layer_after (Inl h) = fst (snd h)" "layer_after (Inr (x, s, st)) = s"
  by (simp_all add: layer_after_def split_beta)

lemma outcome_simps [simp]:
  "outcome (Inl (e, s, st)) = Inl (e, unbound s)" "outcome (Inr (x, s, st)) = Inr (x, unbound s)"
  by (simp_all add: outcome_def)

text \<open>The layer after a slot is the layer after the selection, up to the engine.\<close>

lemma slot_after_select:
  assumes "select_element L s = Inr (sel, fnw, r, s1)"
  shows "\<exists>g. layer_after (slot L s st k) = s1\<lparr>generator := g\<rparr>"
proof -
  have keep: "s1 = s1\<lparr>generator := generator s1\<rparr>"
    by simp
  show ?thesis
  proof (cases "slot L s st k")
    case (Inl h)
    then obtain e s' st' where h: "slot L s st k = Inl (e, s', st')"
      by (cases h) auto
    with assms have "s' = s1"
      by (auto simp add: slot_def FATAL_def Let_def
          split: option.splits prod.splits if_splits)
    with h have "layer_after (slot L s st k) = s1"
      by simp
    then have "layer_after (slot L s st k) = s1\<lparr>generator := generator s1\<rparr>"
      by simp
    then show ?thesis
      by (rule exI)
  next
    case (Inr x)
    then obtain lg s' st' where x: "slot L s st k = Inr (lg, s', st')"
      by (cases x) auto
    from x obtain sel' fnw' r' s1' d l w st1 where
      sel: "select_element L s = Inr (sel', fnw', r', s1')"
      and "deref st (data_output s1') = Some d" and "deref st (label_output s1') = Some l"
      and "deref st (localized_error_output s1') = Some w"
      and "fetch s1' st d l w k sel' = (True, st1)"
      and "lg = Slot sel' fnw' r'"
      and idle: "testing s1' \<and> \<not> fnw' \<longrightarrow> s' = s1' \<and> st' = st1"
      and busy: "\<not> (testing s1' \<and> \<not> fnw') \<longrightarrow>
       (\<exists>w1 t g. deref st1 (localized_error_output s1') = Some w1 \<and>
          sample_weights L (testing s1') fnw' (loss_sampling_p s1') k (data (st1 ! w1))
            (generator s1') = Some (t, g) \<and>
          s' = s1'\<lparr>generator := g\<rparr> \<and> st' = st1[w1 := (st1 ! w1)\<lparr>data := t\<rparr>])"
      by (rule slot_Inr)
    from sel assms have "s1' = s1"
      by simp
    with idle busy keep have "\<exists>g. s' = s1\<lparr>generator := g\<rparr>"
      by (cases "testing s1' \<and> \<not> fnw'") blast+
    with x show ?thesis
      by simp
  qed
qed

lemma slot_after_no_select:
  "select_element L s = Inl e \<Longrightarrow> slot L s st k = Inl (e, s, st)"
  by (simp add: slot_def)

lemma select_element_cursor_testing:
  assumes "select_element L s = Inr (sel, fnw, r, s1)"
  shows "current_element_testing s1 =
    (if testing s then current_element_testing s + 1 else current_element_testing s)"
  using assms
  by (auto simp add: select_element_def Let_def vector_at_def split: if_splits)

lemma select_element_testing_total:
  "testing s \<Longrightarrow> \<exists>sel fnw s1. select_element L s = Inr (sel, fnw, False, s1)"
  by (simp add: select_element_testing)

lemma slot_cursor_testing:
  "current_element_testing (layer_after (slot L s st k)) =
     (if testing s then current_element_testing s + 1 else current_element_testing s)"
  "testing (layer_after (slot L s st k)) = testing s"
proof -
  show "current_element_testing (layer_after (slot L s st k)) =
     (if testing s then current_element_testing s + 1 else current_element_testing s)"
  proof (cases "select_element L s")
    case (Inl e)
    then have "\<not> testing s"
      using select_element_testing_total [of s L] by auto
    with Inl show ?thesis
      by (simp add: slot_after_no_select)
  next
    case (Inr x)
    then obtain sel fnw r s1 where sel: "select_element L s = Inr (sel, fnw, r, s1)"
      by (cases x) auto
    from slot_after_select [OF sel] obtain g where
      "layer_after (slot L s st k) = s1\<lparr>generator := g\<rparr>"
      by blast
    with select_element_cursor_testing [OF sel] show ?thesis
      by simp
  qed
  show "testing (layer_after (slot L s st k)) = testing s"
  proof (cases "select_element L s")
    case (Inl e)
    then show ?thesis
      by (simp add: slot_after_no_select)
  next
    case (Inr x)
    then obtain sel fnw r s1 where sel: "select_element L s = Inr (sel, fnw, r, s1)"
      by (cases x) auto
    from slot_after_select [OF sel] obtain g where
      "layer_after (slot L s st k) = s1\<lparr>generator := g\<rparr>"
      by blast
    with select_element_fields(1) [OF sel] show ?thesis
      by simp
  qed
qed

lemma layer_after_slots_Cons:
  "layer_after (slots L s st (k # rest)) =
     (case slot L s st k of
        Inl h \<Rightarrow> layer_after (slot L s st k)
      | Inr (lg, s1, st1) \<Rightarrow> layer_after (slots L s1 st1 rest))"
  by (simp add: layer_after_def split: sum.splits prod.splits)

lemma slots_cursor_testing_frame:
  "\<not> testing s \<Longrightarrow>
   current_element_testing (layer_after (slots L s st ss)) = current_element_testing s
   \<and> \<not> testing (layer_after (slots L s st ss))"
proof (induction ss arbitrary: s st)
  case Nil
  then show ?case by simp
next
  case (Cons k rest)
  note one = slot_cursor_testing [of L s st k]
  show ?case
  proof (cases "slot L s st k")
    case (Inl h)
    with one Cons.prems show ?thesis
      by (simp add: layer_after_slots_Cons del: slots.simps)
  next
    case (Inr x)
    then obtain lg s1 st1 where x: "slot L s st k = Inr (lg, s1, st1)"
      by (cases x) auto
    with one Cons.prems have "\<not> testing s1"
      and "current_element_testing s1 = current_element_testing s"
      by simp_all
    with Cons.IH [of s1 st1] x show ?thesis
      by (simp add: layer_after_slots_Cons del: slots.simps)
  qed
qed

lemma slots_cursor_testing_advance:
  "testing s \<Longrightarrow> slots L s st ss = Inr (lgs, s', st') \<Longrightarrow>
   current_element_testing s' = current_element_testing s + word_of_nat (length ss)
   \<and> testing s'"
proof (induction ss arbitrary: s st lgs)
  case Nil
  then show ?case by simp
next
  case (Cons k rest)
  from Cons.prems(2) obtain lg s1 st1 lgs1 where
    first: "slot L s st k = Inr (lg, s1, st1)"
    and others: "slots L s1 st1 rest = Inr (lgs1, s', st')"
    by (auto split: sum.splits prod.splits)
  from slot_cursor_testing [of L s st k] first Cons.prems(1)
  have "testing s1" and "current_element_testing s1 = current_element_testing s + 1"
    by simp_all
  with Cons.IH [OF _ others] show ?case
    by simp
qed

lemma FeedForward_cursor_testing_advance:
  assumes "testing s" and "FeedForward L s st = Inr (lgs, s', st')"
  shows "current_element_testing s' = current_element_testing s + batch_size s"
  using slots_cursor_testing_advance [OF assms(1) assms(2) [unfolded FeedForward_def]]
  by simp

lemma Connect_cursor_testing:
  "Connect s inputs outputs = Inr (ok, s') \<Longrightarrow>
   current_element_testing s' = current_element_testing s"
  by (auto simp add: Connect_def vector_at_def Let_def split: if_splits)

subsection \<open>Slots in training mode on a bound layer\<close>

lemma bound_in_iff:
  "bound_in s st \<longleftrightarrow>
     (\<exists>d l w. data_output s = Some d \<and> d < length st \<and> label_output s = Some l \<and> l < length st
        \<and> localized_error_output s = Some w \<and> w < length st)"
  by (auto simp add: bound_in_def deref_def split: option.splits)

text \<open>
  A slot in training mode on a layer bound to tensors of the store: after the selection
  the fetch decides between the \<^verbatim>\<open>FATAL\<close> exit and the return; a slot that returns has
  moved the engine by one draw for each block.
\<close>

lemma slot_training_cases:
  assumes "\<not> testing s" and sel: "select_element L s = Inr (sel, fnw, r, s1)"
    and d: "data_output s = Some d" "d < length st"
    and l: "label_output s = Some l" "l < length st"
    and w: "localized_error_output s = Some w" "w < length st"
    and keeps: "keeps_geometry (dataset s)"
    and wide: "width (data (st ! w)) + 12 \<le> 2 ^ 32"
    and high: "height (data (st ! w)) + 12 \<le> 2 ^ 32"
  shows "slot L s st k =
    (if fst (GetTrainingSample (dataset s) st d l w k sel)
     then Inr (Slot sel False r,
            s1\<lparr>generator :=
              advance L (blocks (height (data (st ! w))) * blocks (width (data (st ! w))))
                (generator s1)\<rparr>,
            (snd (GetTrainingSample (dataset s) st d l w k sel))
              [w := (snd (GetTrainingSample (dataset s) st d l w k sel) ! w)\<lparr>data :=
                 block_sampled L (loss_sampling_p s) k
                   (data (snd (GetTrainingSample (dataset s) st d l w k sel) ! w))
                   (generator s1)\<rparr>])
     else Inl (Fatal ''Cannot load samples from Dataset!'', s1,
            snd (GetTrainingSample (dataset s) st d l w k sel)))"
proof -
  let ?F = "GetTrainingSample (dataset s) st d l w k sel"
  from sel assms(1) have t1: "\<not> testing s1"
    by (simp add: select_element_fields)
  from assms(1) sel have nopad: "\<not> fnw"
    by (rule select_element_training_no_padding)
  from sel have same: "dataset s1 = dataset s" "loss_sampling_p s1 = loss_sampling_p s"
    "data_output s1 = data_output s" "label_output s1 = label_output s"
    "localized_error_output s1 = localized_error_output s"
    by (simp_all add: select_element_fields)
  from same d l w have ptr: "deref st (data_output s1) = Some d"
    "deref st (label_output s1) = Some l" "deref st (localized_error_output s1) = Some w"
    by (simp_all add: deref_def)
  from t1 same have f: "fetch s1 st d l w k sel = (fst ?F, snd ?F)"
    by (simp add: fetch_def)
  from keeps w(2) have geo: "length (snd ?F) = length st"
    "width (data (snd ?F ! w)) = width (data (st ! w))"
    "height (data (snd ?F ! w)) = height (data (st ! w))"
    unfolding keeps_geometry_def by blast+
  show ?thesis
  proof (cases "fst ?F")
    case False
    with f have "fetch s1 st d l w k sel = (False, snd ?F)"
      by simp
    from slot_fatal [OF sel ptr this] False show ?thesis
      by simp
  next
    case True
    with f have ok: "fetch s1 st d l w k sel = (True, snd ?F)"
      by simp
    from geo w(2) have len: "w < length (snd ?F)"
      by simp
    from t1 nopad wide high geo
    have "sample_weights L (testing s1) fnw (loss_sampling_p s1) k (data (snd ?F ! w))
        (generator s1) =
      Some (block_sampled L (loss_sampling_p s1) k (data (snd ?F ! w)) (generator s1),
            advance L (blocks (height (data (snd ?F ! w))) * blocks (width (data (snd ?F ! w))))
              (generator s1))"
      by (intro sample_weights_training) simp_all
    from slot_eval [OF sel ptr ok len this] True t1 nopad geo same show ?thesis
      by simp
  qed
qed

lemma weights_shape_iff:
  "weights_shape s st W H \<longleftrightarrow>
     (\<exists>w. localized_error_output s = Some w \<and> w < length st
        \<and> width (data (st ! w)) = W \<and> height (data (st ! w)) = H)"
  by (auto simp add: weights_shape_def split: option.splits)

text \<open>
  A slot in training mode whose cursor is inside the permutation, on a layer bound to
  tensors of the store whose loss weights are \<open>W\<close> wide and \<open>H\<close> high.
\<close>

lemma slot_training_in_range:
  assumes nt: "\<not> testing s" and c: "unat (current_element s) < length (perm s)"
    and len: "length (perm s) < 2 ^ 32"
    and bound: "bound_in s st" and shape: "weights_shape s st W H"
    and wide: "W + 12 \<le> 2 ^ 32" and high: "H + 12 \<le> 2 ^ 32"
    and keeps: "keeps_geometry (dataset s)"
  shows "\<exists>s1 st1 ok.
      slot L s st k =
        (if ok
         then Inr (Slot (perm s ! unat (current_element s)) False
                     (unat (current_element s) + 1 = length (perm s)),
                   s1\<lparr>generator := advance L (blocks H * blocks W) (generator s1)\<rparr>, st1)
         else Inl (Fatal ''Cannot load samples from Dataset!'', s1, st1))
      \<and> (serves (dataset s) (perm s ! unat (current_element s)) \<longrightarrow> ok)
      \<and> s1 = (if unat (current_element s) + 1 = length (perm s)
               then RedoPermutation L (s\<lparr>current_element := 0\<rparr>)
               else s\<lparr>current_element := current_element s + 1\<rparr>)
      \<and> bound_in s1 st1 \<and> weights_shape s1 st1 W H"
proof -
  from bound obtain d l w0 where d: "data_output s = Some d" "d < length st"
    and l: "label_output s = Some l" "l < length st"
    and w0: "localized_error_output s = Some w0" "w0 < length st"
    by (auto simp add: bound_in_iff)
  from shape obtain w where w: "localized_error_output s = Some w" "w < length st"
    and geo: "width (data (st ! w)) = W" "height (data (st ! w)) = H"
    by (auto simp add: weights_shape_iff)
  let ?sel = "perm s ! unat (current_element s)"
  let ?last = "unat (current_element s) + 1 = length (perm s)"
  let ?s1 = "if ?last then RedoPermutation L (s\<lparr>current_element := 0\<rparr>)
             else s\<lparr>current_element := current_element s + 1\<rparr>"
  let ?F = "GetTrainingSample (dataset s) st d l w k ?sel"
  let ?st1 = "(snd ?F)[w := (snd ?F ! w)\<lparr>data :=
                 block_sampled L (loss_sampling_p s) k (data (snd ?F ! w)) (generator ?s1)\<rparr>]"
  from nt c len have sel: "select_element L s = Inr (?sel, False, ?last, ?s1)"
    by (simp add: select_element_training)
  from wide high geo have b: "width (data (st ! w)) + 12 \<le> 2 ^ 32"
    "height (data (st ! w)) + 12 \<le> 2 ^ 32"
    by simp_all
  from keeps w(2) have kept: "length (snd ?F) = length st"
    "width (data (snd ?F ! w)) = width (data (st ! w))"
    "height (data (snd ?F ! w)) = height (data (st ! w))"
    unfolding keeps_geometry_def by blast+
  have ptrs: "data_output ?s1 = Some d" "label_output ?s1 = Some l"
    "localized_error_output ?s1 = Some w"
    using d l w by simp_all
  have eq: "slot L s st k =
    (if fst ?F
     then Inr (Slot ?sel False ?last,
            ?s1\<lparr>generator := advance L (blocks H * blocks W) (generator ?s1)\<rparr>, ?st1)
     else Inl (Fatal ''Cannot load samples from Dataset!'', ?s1, snd ?F))"
    using slot_training_cases [OF nt sel d l w keeps b, of k] geo by simp
  show ?thesis
  proof (cases "fst ?F")
    case True
    have "bound_in ?s1 ?st1"
      using ptrs d l w kept by (simp add: bound_in_iff)
    moreover have "weights_shape ?s1 ?st1 W H"
      using ptrs w kept geo by (simp add: weights_shape_iff)
    moreover from eq True have "slot L s st k =
        (if True
         then Inr (Slot ?sel False ?last,
                   ?s1\<lparr>generator := advance L (blocks H * blocks W) (generator ?s1)\<rparr>, ?st1)
         else Inl (Fatal ''Cannot load samples from Dataset!'', ?s1, ?st1))"
      by simp
    ultimately show ?thesis
      by blast
  next
    case False
    have "bound_in ?s1 (snd ?F)"
      using ptrs d l w kept by (simp add: bound_in_iff)
    moreover have "weights_shape ?s1 (snd ?F) W H"
      using ptrs w kept geo by (simp add: weights_shape_iff)
    moreover from eq False have "slot L s st k =
        (if False
         then Inr (Slot ?sel False ?last,
                   ?s1\<lparr>generator := advance L (blocks H * blocks W) (generator ?s1)\<rparr>, snd ?F)
         else Inl (Fatal ''Cannot load samples from Dataset!'', ?s1, snd ?F))"
      by simp
    moreover from False have "\<not> serves (dataset s) ?sel"
      unfolding serves_def by blast
    ultimately show ?thesis
      by blast
  qed
qed

lemma bound_generator [simp]:
  "bound_in (s\<lparr>generator := g\<rparr>) st = bound_in s st"
  "weights_shape (s\<lparr>generator := g\<rparr>) st W H = weights_shape s st W H"
  by (simp_all add: bound_in_def weights_shape_def)

text \<open>
  The slots up to the end of the permutation return when the Dataset serves the indices
  of the permutation; the engine that shuffles is the one the slots before have moved.
\<close>

lemma training_pass_returns:
  assumes wide: "W + 12 \<le> 2 ^ 32" and high: "H + 12 \<le> 2 ^ 32"
  shows "\<not> testing s \<Longrightarrow> length (perm s) < 2 ^ 32 \<Longrightarrow> bound_in s st \<Longrightarrow>
    weights_shape s st W H \<Longrightarrow> keeps_geometry (dataset s) \<Longrightarrow>
    \<forall>i\<in>set (perm s). serves (dataset s) i \<Longrightarrow>
    unat (current_element s) + length ss = length (perm s) \<Longrightarrow> ss \<noteq> [] \<Longrightarrow>
    \<exists>lgs s' st'. slots L s st ss = Inr (lgs, s', st')
      \<and> perm s' = fst (shuffle L (perm s)
           (advance L ((length ss - 1) * (blocks H * blocks W)) (generator s)))"
proof (induction ss arbitrary: s st)
  case Nil
  then show ?case by simp
next
  case (Cons k rest)
  let ?c = "unat (current_element s)"
  let ?m = "blocks H * blocks W"
  from Cons.prems(7) have c: "?c < length (perm s)"
    by simp
  then have "serves (dataset s) (perm s ! ?c)"
    using Cons.prems(6) by simp
  with slot_training_in_range [OF Cons.prems(1) c Cons.prems(2,3,4) wide high Cons.prems(5),
      of L k]
  obtain s1 st1 where
    first: "slot L s st k =
      Inr (Slot (perm s ! ?c) False (?c + 1 = length (perm s)),
           s1\<lparr>generator := advance L ?m (generator s1)\<rparr>, st1)"
    and s1: "s1 = (if ?c + 1 = length (perm s)
               then RedoPermutation L (s\<lparr>current_element := 0\<rparr>)
               else s\<lparr>current_element := current_element s + 1\<rparr>)"
    and inv: "bound_in s1 st1" "weights_shape s1 st1 W H"
    by (auto split: if_splits)
  let ?s2 = "s1\<lparr>generator := advance L ?m (generator s1)\<rparr>"
  show ?case
  proof (cases rest)
    case Nil
    with Cons.prems(7) have last: "?c + 1 = length (perm s)"
      by simp
    with s1 have "perm ?s2 = fst (shuffle L (perm s) (generator s))"
      by simp
    with first Nil show ?thesis
      by simp
  next
    case (Cons k' rest')
    with Cons.prems(7) have more: "?c + 1 \<noteq> length (perm s)" "?c + 1 < 2 ^ 32"
      using Cons.prems(2) by simp_all
    from more(2) have c1: "unat (current_element s + 1) = ?c + 1"
      by (rule unat_plus_1)
    from more s1 have s1': "s1 = s\<lparr>current_element := current_element s + 1\<rparr>"
      by simp
    have "\<exists>lgs s' st'. slots L ?s2 st1 rest = Inr (lgs, s', st')
      \<and> perm s' = fst (shuffle L (perm ?s2)
           (advance L ((length rest - 1) * ?m) (generator ?s2)))"
    proof (rule Cons.IH)
      show "\<not> testing ?s2" "length (perm ?s2) < 2 ^ 32" "keeps_geometry (dataset ?s2)"
        "\<forall>i\<in>set (perm ?s2). serves (dataset ?s2) i"
        using Cons.prems(1,2,5,6) by (simp_all add: s1')
      show "bound_in ?s2 st1" "weights_shape ?s2 st1 W H"
        using inv by simp_all
      show "unat (current_element ?s2) + length rest = length (perm ?s2)"
        using Cons.prems(7) c1 by (simp add: s1')
      show "rest \<noteq> []"
        using Cons by simp
    qed
    then obtain lgs s' st' where
      others: "slots L ?s2 st1 rest = Inr (lgs, s', st')"
      and p: "perm s' = fst (shuffle L (perm ?s2)
           (advance L ((length rest - 1) * ?m) (generator ?s2)))"
      by blast
    from Cons have "(length (k # rest) - 1) * ?m = ?m + (length rest - 1) * ?m"
      by simp
    then have "advance L ((length (k # rest) - 1) * ?m) (generator s) =
        advance L ((length rest - 1) * ?m) (advance L ?m (generator s))"
      by (simp only: advance_add)
    with p have "perm s' = fst (shuffle L (perm s)
           (advance L ((length (k # rest) - 1) * ?m) (generator s)))"
      by (simp add: s1')
    with first others show ?thesis
      by simp
  qed
qed

lemma slot_training_after:
  assumes "\<not> testing s" and "unat (current_element s) < length (perm s)"
    and "length (perm s) < 2 ^ 32"
  shows "if unat (current_element s) + 1 = length (perm s)
       then current_element (layer_after (slot L s st k)) = 0
         \<and> perm (layer_after (slot L s st k)) = fst (shuffle L (perm s) (generator s))
       else current_element (layer_after (slot L s st k)) = current_element s + 1
         \<and> perm (layer_after (slot L s st k)) = perm s"
proof -
  from slot_after_select [OF select_element_training [OF assms], where st = st and k = k]
  obtain g where "layer_after (slot L s st k) =
      (if Suc (unat (current_element s)) = length (perm s)
       then RedoPermutation L (s\<lparr>current_element := 0\<rparr>)
       else s\<lparr>current_element := current_element s + 1\<rparr>)\<lparr>generator := g\<rparr>"
    by blast
  then show ?thesis
    by simp
qed

subsection \<open>Two runs in two stores\<close>











subsection \<open>Runs that return\<close>






subsection \<open>The engine is moved by shuffles and draws only\<close>

lemma advanced_trans:
  assumes "advanced L g g1" and "advanced L g1 g2"
  shows "advanced L g g2"
  using assms(2,1)
  by (induction rule: advanced.induct) (auto intro: advanced.intros)

lemma advanced_advance: "advanced L g (advance L n g)"
proof (induction n arbitrary: g)
  case 0
  show ?case by (simp add: advanced.same)
next
  case (Suc n)
  have "advanced L g (snd (dist L g))"
    by (intro advanced.drawn advanced.same)
  with Suc [of "snd (dist L g)"] show ?case
    by (auto intro: advanced_trans)
qed














subsection \<open>Evaluation of the instance\<close>

lemma ascending_5: "ascending 5 0 [] = [0, 1, 2, 3, 4]"
  by (simp add: ascending.simps [of 5])

lemmas ex_defs =
  ex_constructed_def ex_layer_def ex_outputs_def ex_stdlib_def ex_dataset_def ex_store_def
  ex_fetch_def ex_next_def DatasetInputLayer_def RedoPermutation_def Connect_def vector_at_def
  ascending_5

lemmas run_defs =
  FeedForward_def slot_def select_element_def deref_def fetch_def FATAL_def
  sample_weights_def Let_def word_le_nat_alt word_less_nat_alt

lemma ex_constructed_eval:
  "ex_constructed bad =
     \<lparr>dataset = ex_dataset bad, batch_size = 3, loss_sampling_p = 1 / 2, seed = 42,
      generator = 5, label_maps = 1, input_maps = 3, elements_training = 5,
      elements_testing = 2, elements_total = 7, perm = [2, 3, 4, 0, 1],
      current_element = 0, current_element_testing = 0, testing = False,
      data_output = None, label_output = None, helper_output = None,
      localized_error_output = None\<rparr>"
  by (simp add: ex_defs)

lemma ex_layer_eval:
  "ex_layer bad =
     (ex_constructed bad)\<lparr>data_output := Some 0, label_output := Some 1,
       helper_output := Some 2, localized_error_output := Some 3\<rparr>"
  by (simp add: ex_layer_def ex_outputs_def Connect_def vector_at_def)

lemma ex_testing_run:
  "FeedForward ex_stdlib (SetTestingMode (ex_layer 9) True) ex_store =
     Inr ([Slot 0 False False, Slot 0 True False, Slot 0 True False],
          (ex_layer 9)\<lparr>testing := True, current_element_testing := 3\<rparr>,
          ex_store[3 := (ex_store ! 3)\<lparr>data :=
            Clear (Clear (Clear (Clear (Clear (data (ex_store ! 3)) 1 0) 1 1) 0 1) 1 2) 0 2\<rparr>])"
  by (simp add: ex_layer_eval ex_constructed_eval SetTestingMode_def run_defs ex_dataset_def
      ex_fetch_def ex_store_def upt_rec [of _ 3])
    (simp add: numeral_2_eq_2)

lemma ex_tested_eval:
  "ex_tested = (ex_layer 9)\<lparr>testing := True, current_element_testing := 3\<rparr>"
  by (simp add: ex_tested_def ex_testing_run)

lemma ex_select_training:
  "select_element ex_stdlib (ex_layer bad) =
     Inr (2, False, False, (ex_layer bad)\<lparr>current_element := 1\<rparr>)"
  by (simp add: select_element_training ex_layer_eval ex_constructed_eval)

lemma ex_select_testing:
  "select_element ex_stdlib (SetTestingMode (ex_layer bad) True) =
     Inr (0, False, False, (ex_layer bad)\<lparr>testing := True, current_element_testing := 1\<rparr>)"
  by (simp add: select_element_testing SetTestingMode_def ex_layer_eval ex_constructed_eval
      word_le_nat_alt)

lemma ex_shape:
  "width (data (ex_store ! 3)) = 13" "height (data (ex_store ! 3)) = 2" "length ex_store = 4"
  by (simp_all add: ex_store_def ex_tensor_def)

lemma ex_blocks: "blocks 13 = 2" "blocks 2 = 1"
  by (simp_all add: blocks_def)

lemma ex_advance_2: "advance ex_stdlib 2 5 = 15"
  by (simp add: numeral_2_eq_2 ex_stdlib_def ex_next_def)

lemma ex_pixels:
  "elements (block_sampled ex_stdlib (1 / 2) 0 (Clear (data (ex_store ! 3)) 1 0) 5) 0 0 0 0 = 1"
  "elements (block_sampled ex_stdlib (1 / 2) 0 (Clear (data (ex_store ! 3)) 1 0) 5) 11 1 0 0 = 1"
  "elements (block_sampled ex_stdlib (1 / 2) 0 (Clear (data (ex_store ! 3)) 1 0) 5) 12 0 0 0 = 0"
  "elements (block_sampled ex_stdlib (1 / 2) 0 (Clear (data (ex_store ! 3)) 1 0) 5) 12 1 0 0 = 0"
  by (simp_all add: block_sampled_def zero_where_def draw_def blocks_def Clear_def ex_shape
      ex_stdlib_def ex_next_def)

lemma ex_draws_bounded: "fst (dist ex_stdlib g) \<le> 1"
  by (simp add: ex_stdlib_def)

lemma ex_slot_training:
  "bad \<noteq> 2 \<Longrightarrow> slot ex_stdlib (ex_layer bad) ex_store 0 =
       Inr (Slot 2 False False, (ex_layer bad)\<lparr>current_element := 1, generator := 15\<rparr>,
            ex_store[3 := (ex_store ! 3)\<lparr>data :=
              block_sampled ex_stdlib (1 / 2) 0 (Clear (data (ex_store ! 3)) 1 0) 5\<rparr>])"
proof -
  assume bad: "bad \<noteq> 2"
  let ?s1 = "(ex_layer bad)\<lparr>current_element := 1\<rparr>"
  let ?st1 = "ex_store[3 := (ex_store ! 3)\<lparr>data := Clear (data (ex_store ! 3)) 1 0\<rparr>]"
  have f: "fetch ?s1 ex_store 0 1 3 0 2 = (True, ?st1)"
    using bad by (auto simp add: fetch_def ex_layer_eval ex_constructed_eval ex_dataset_def ex_fetch_def)
  have d: "deref ex_store (data_output ?s1) = Some 0" "deref ex_store (label_output ?s1) = Some 1"
    "deref ex_store (localized_error_output ?s1) = Some 3"
    by (simp_all add: deref_def ex_layer_eval ex_shape)
  have len: "3 < length ?st1"
    by (simp add: ex_shape)
  have sw: "sample_weights ex_stdlib (testing ?s1) False (loss_sampling_p ?s1) 0 (data (?st1 ! 3))
      (generator ?s1) =
    Some (block_sampled ex_stdlib (1 / 2) 0 (Clear (data (ex_store ! 3)) 1 0) 5, 15)"
    by (simp add: sample_weights_training ex_layer_eval ex_constructed_eval ex_shape ex_blocks
        ex_advance_2)
  show ?thesis
    using slot_eval [OF ex_select_training d f len sw]
    by (simp add: ex_layer_eval ex_constructed_eval ex_shape)
qed

lemma ex_layer_state: "ex_layer bad = ex_state bad [2, 3, 4, 0, 1] 0 5"
  by (simp add: ex_state_def ex_layer_eval ex_constructed_eval)

lemma ex_state_fields [simp]:
  "testing (ex_state bad P c g) = False" "perm (ex_state bad P c g) = P"
  "current_element (ex_state bad P c g) = c" "generator (ex_state bad P c g) = g"
  "loss_sampling_p (ex_state bad P c g) = 1 / 2" "batch_size (ex_state bad P c g) = 3"
  "dataset (ex_state bad P c g) = ex_dataset bad"
  "data_output (ex_state bad P c g) = Some 0" "label_output (ex_state bad P c g) = Some 1"
  "localized_error_output (ex_state bad P c g) = Some 3"
  by (simp_all add: ex_state_def ex_layer_eval ex_constructed_eval)

lemma ex_advance: "advance ex_stdlib 2 g = ex_next (ex_next g)"
  by (simp add: numeral_2_eq_2 ex_stdlib_def)

lemma ex_state_at_fields [simp]:
  "testing (ex_state_at k bad P c g) = False" "perm (ex_state_at k bad P c g) = P"
  "current_element (ex_state_at k bad P c g) = c" "generator (ex_state_at k bad P c g) = g"
  "loss_sampling_p (ex_state_at k bad P c g) = 1 / 2" "batch_size (ex_state_at k bad P c g) = 3"
  "dataset (ex_state_at k bad P c g) = ex_dataset bad"
  "data_output (ex_state_at k bad P c g) = Some k"
  "label_output (ex_state_at k bad P c g) = Some (k + 1)"
  "localized_error_output (ex_state_at k bad P c g) = Some (k + 3)"
  by (simp_all add: ex_state_at_def)

lemma ex_state_at_step:
  "(ex_state_at k bad P c g)\<lparr>current_element := c'\<rparr> = ex_state_at k bad P c' g"
  "(ex_state_at k bad P c g)\<lparr>generator := g'\<rparr> = ex_state_at k bad P c g'"
  "RedoPermutation ex_stdlib (ex_state_at k bad P c g) =
     ex_state_at k bad (rotate (Suc (g mod 3)) P) c (ex_next g)"
  by (simp_all add: ex_state_at_def ex_state_def RedoPermutation_def ex_stdlib_def)

lemma ex_state_at_0: "ex_state_at 0 bad P c g = ex_state bad P c g"
  by (simp add: ex_state_at_def ex_state_def ex_layer_eval)

lemma ex_slot_at:
  assumes "length P = 5" and "unat c < 5" and "P ! unat c \<noteq> bad"
    and "length st = k + 4" and "width (data (st ! (k + 3))) = 13"
    and "height (data (st ! (k + 3))) = 2"
  shows "slot ex_stdlib (ex_state_at k bad P c g) st sample =
    Inr (Slot (P ! unat c) False (unat c = 4),
         if unat c = 4
         then ex_state_at k bad (rotate (Suc (g mod 3)) P) 0 (ex_next (ex_next (ex_next g)))
         else ex_state_at k bad P (c + 1) (ex_next (ex_next g)),
         st[k + 3 := (st ! (k + 3))\<lparr>data :=
           block_sampled ex_stdlib (1 / 2) sample (Clear (data (st ! (k + 3))) 1 sample)
             (if unat c = 4 then ex_next g else g)\<rparr>])"
proof -
  let ?s1 = "if unat c = 4 then ex_state_at k bad (rotate (Suc (g mod 3)) P) 0 (ex_next g)
             else ex_state_at k bad P (c + 1) g"
  let ?st1 = "st[k + 3 := (st ! (k + 3))\<lparr>data := Clear (data (st ! (k + 3))) 1 sample\<rparr>]"
  have sel: "select_element ex_stdlib (ex_state_at k bad P c g) =
      Inr (P ! unat c, False, unat c = 4, ?s1)"
    using assms(1,2) by (simp add: select_element_training ex_state_at_step)
  have d: "deref st (data_output ?s1) = Some k" "deref st (label_output ?s1) = Some (k + 1)"
    "deref st (localized_error_output ?s1) = Some (k + 3)"
    using assms(4) by (simp_all add: deref_def)
  have f: "fetch ?s1 st k (k + 1) (k + 3) sample (P ! unat c) = (True, ?st1)"
    using assms(3) by (auto simp add: fetch_def ex_dataset_def ex_fetch_def)
  have len: "k + 3 < length ?st1"
    using assms(4) by simp
  have sw: "sample_weights ex_stdlib (testing ?s1) False (loss_sampling_p ?s1) sample
      (data (?st1 ! (k + 3))) (generator ?s1) =
    Some (block_sampled ex_stdlib (1 / 2) sample (Clear (data (st ! (k + 3))) 1 sample)
            (if unat c = 4 then ex_next g else g),
          ex_next (ex_next (if unat c = 4 then ex_next g else g)))"
    using assms(4,5,6) by (simp add: sample_weights_training ex_blocks ex_advance)
  show ?thesis
    using slot_eval [OF sel d f len sw] assms(4)
    by (simp add: ex_state_at_step)
qed


lemma ex_keeps_geometry: "keeps_geometry (ex_dataset bad)"
  by (simp add: keeps_geometry_def ex_dataset_def ex_fetch_def)


lemma ex_slot:
  assumes "length P = 5" and "unat c < 5" and "P ! unat c \<noteq> bad"
    and "length st = 4" and "width (data (st ! 3)) = 13" and "height (data (st ! 3)) = 2"
  shows "slot ex_stdlib (ex_state bad P c g) st sample =
    Inr (Slot (P ! unat c) False (unat c = 4),
         if unat c = 4
         then ex_state bad (rotate (Suc (g mod 3)) P) 0 (ex_next (ex_next (ex_next g)))
         else ex_state bad P (c + 1) (ex_next (ex_next g)),
         st[3 := (st ! 3)\<lparr>data :=
           block_sampled ex_stdlib (1 / 2) sample (Clear (data (st ! 3)) 1 sample)
             (if unat c = 4 then ex_next g else g)\<rparr>])"
  using ex_slot_at [of P c bad st 0 g sample] assms
  by (simp add: ex_state_at_0)

lemma ex_FeedForward:
  "FeedForward ex_stdlib (ex_state bad P c g) st = slots ex_stdlib (ex_state bad P c g) st [0, 1, 2]"
proof -
  have "[0..<unat (batch_size (ex_state bad P c g))] = [0, 1, 2]"
    by (simp add: upt_rec)
  then show ?thesis
    by (simp only: FeedForward_def)
qed

lemma mset_rotate1: "mset (rotate1 xs) = mset xs"
  by (cases xs) simp_all

lemma mset_rotate: "mset (rotate n xs) = mset xs"
  by (induction n) (simp_all add: mset_rotate1)

lemma ex_shuffle_permutes: "shuffle_permutes ex_stdlib"
  by (simp add: shuffle_permutes_def ex_stdlib_def mset_rotate1 mset_rotate)

lemma ex_reachable:
  "reachable ex_stdlib (ex_dataset 9) 3 (1 / 2) 42 (ex_state 9 [4, 0, 1, 2, 3] 1 8)"
proof -
  have "reachable ex_stdlib (ex_dataset 9) 3 (1 / 2) 42 (ex_constructed 9)"
    unfolding ex_constructed_def by (rule reachable.constructed)
  moreover have "Connect (ex_constructed 9) [] ex_outputs = Inr (True, ex_layer 9)"
    by (simp add: ex_layer_eval Connect_def vector_at_def ex_outputs_def)
  ultimately have r0: "reachable ex_stdlib (ex_dataset 9) 3 (1 / 2) 42 (ex_layer 9)"
    by (rule reachable.connected)
  have "\<exists>lgs st'. FeedForward ex_stdlib (ex_layer 9) ex_store =
        Inr (lgs, ex_state 9 [2, 3, 4, 0, 1] 3 3, st')
      \<and> length st' = 4 \<and> width (data (st' ! 3)) = 13 \<and> height (data (st' ! 3)) = 2"
    by (simp add: ex_layer_state ex_FeedForward ex_slot ex_shape ex_next_def)
  then obtain lgs st' where
    first: "FeedForward ex_stdlib (ex_layer 9) ex_store =
        Inr (lgs, ex_state 9 [2, 3, 4, 0, 1] 3 3, st')"
    and shape: "length st' = 4" "width (data (st' ! 3)) = 13" "height (data (st' ! 3)) = 2"
    by blast
  from r0 first have r1: "reachable ex_stdlib (ex_dataset 9) 3 (1 / 2) 42
      (ex_state 9 [2, 3, 4, 0, 1] 3 3)"
    by (rule reachable.fed)
  from shape have "\<exists>lgs st''. FeedForward ex_stdlib (ex_state 9 [2, 3, 4, 0, 1] 3 3) st' =
        Inr (lgs, ex_state 9 [4, 0, 1, 2, 3] 1 8, st'')"
    by (simp add: ex_FeedForward ex_slot ex_next_def)
  then obtain lgs' st'' where
    "FeedForward ex_stdlib (ex_state 9 [2, 3, 4, 0, 1] 3 3) st' =
        Inr (lgs', ex_state 9 [4, 0, 1, 2, 3] 1 8, st'')"
    by blast
  with r1 show ?thesis
    by (rule reachable.fed)
qed

lemma ex_serves: "i \<noteq> bad \<Longrightarrow> serves (ex_dataset bad) i"
  by (simp add: serves_def ex_dataset_def ex_fetch_def)

lemma ex_bound: "bound_in (ex_layer bad) ex_store" "weights_shape (ex_layer bad) ex_store 13 2"
  by (simp_all add: bound_in_def weights_shape_def deref_def ex_layer_eval ex_shape)

lemma ex_advance_8: "advance ex_stdlib 8 5 = 13"
proof -
  have "(8 :: nat) = Suc (Suc (Suc (Suc (Suc (Suc (Suc (Suc 0)))))))"
    by simp
  moreover have "advance ex_stdlib (Suc (Suc (Suc (Suc (Suc (Suc (Suc (Suc 0)))))))) 5 = 13"
    by (simp add: ex_stdlib_def ex_next_def)
  ultimately show ?thesis
    by (simp only:)
qed









subsection \<open>\<^verbatim>\<open>SetTestingMode\<close>\<close>

text \<open>
  Claim C2, as amended. \<^verbatim>\<open>SetTestingMode(true)\<close> sets the testing cursor to 0 when it
  switches the layer from training mode to testing mode; called on a layer that is
  already in testing mode it leaves the cursor where it is. In both cases the layer is in
  testing mode afterwards, and the training cursor and the permutation are untouched.
\<close>

theorem SetTestingMode_resets_on_switch:
  "current_element_testing (SetTestingMode s True) =
     (if testing s then current_element_testing s else 0)
   \<and> testing (SetTestingMode s True)
   \<and> current_element (SetTestingMode s True) = current_element s
   \<and> perm (SetTestingMode s True) = perm s"
  by (simp add: SetTestingMode_def)

theorem SetTestingMode_resets_on_switch_witness:
  "current_element_testing (SetTestingMode (ex_layer 9) True) = 0
   \<and> current_element_testing (SetTestingMode ex_tested True) = 3"
  using SetTestingMode_resets_on_switch [of "ex_layer 9"]
    SetTestingMode_resets_on_switch [of ex_tested]
  by (simp add: ex_tested_eval ex_layer_eval ex_constructed_eval)

text \<open>
  The claim as it was stated fails: the instance, after one batch in testing mode, has its
  testing cursor at 3, and a second \<^verbatim>\<open>SetTestingMode(true)\<close> leaves it at 3.
\<close>

theorem SetTestingMode_repeated_counterexample:
  "testing ex_tested \<and> current_element_testing (SetTestingMode ex_tested True) = 3"
  by (simp add: ex_tested_eval SetTestingMode_def)

subsection \<open>\<^verbatim>\<open>Connect\<close>\<close>

text \<open>
  Claim C10. \<^verbatim>\<open>Connect\<close> reads \<^verbatim>\<open>outputs[0]\<close> to \<^verbatim>\<open>outputs[3]\<close> before it looks at the
  size of the vector. With fewer than four outputs the outcome is the read beyond the
  vector, whatever the inputs are, and not the return value \<^verbatim>\<open>false\<close>; all reads are
  inside the vector, and \<^verbatim>\<open>Connect\<close> returns, exactly when the caller passes at least four
  outputs.
\<close>

theorem Connect_reads_before_arity_check:
  "(Connect s inputs outputs = Inl OutOfRange) = (length outputs < 4)
   \<and> ((\<exists>r. Connect s inputs outputs = Inr r) = (4 \<le> length outputs))"
  by (auto simp add: Connect_def vector_at_def Let_def)

theorem Connect_reads_before_arity_check_witness:
  "Connect (ex_constructed 9) [] [Some 0, Some 1, Some 2] = Inl OutOfRange
   \<and> (\<exists>r. Connect (ex_constructed 9) [] ex_outputs = Inr r)"
  using Connect_reads_before_arity_check [of "ex_constructed 9" "[]" "[Some 0, Some 1, Some 2]"]
    Connect_reads_before_arity_check [of "ex_constructed 9" "[]" ex_outputs]
  by (simp add: ex_outputs_def)

text \<open>
  Claim C9, as amended. Given at least four outputs, \<^verbatim>\<open>Connect\<close> returns \<^verbatim>\<open>true\<close> exactly
  when there is no input, there are exactly four outputs, and the data, label and
  localized-error outputs (\<^verbatim>\<open>outputs[0]\<close>, \<^verbatim>\<open>outputs[1]\<close>, \<^verbatim>\<open>outputs[3]\<close>) are not null;
  the helper output \<^verbatim>\<open>outputs[2]\<close> is not tested. It binds the four outputs when it
  returns \<^verbatim>\<open>true\<close>; otherwise it returns \<^verbatim>\<open>false\<close> and leaves the layer as it was.
\<close>

theorem Connect_validation:
  "4 \<le> length outputs \<Longrightarrow>
   Connect s inputs outputs =
     (if inputs = [] \<and> length outputs = 4
         \<and> outputs ! 0 \<noteq> None \<and> outputs ! 1 \<noteq> None \<and> outputs ! 3 \<noteq> None
      then Inr (True, s\<lparr>data_output := outputs ! 0, label_output := outputs ! 1,
                        helper_output := outputs ! 2,
                        localized_error_output := outputs ! 3\<rparr>)
      else Inr (False, s))"
  by (auto simp add: Connect_def vector_at_def Let_def)

theorem Connect_validation_witness:
  "4 \<le> length ex_outputs
   \<and> Connect (ex_constructed 9) [] ex_outputs = Inr (True, ex_layer 9)
   \<and> Connect (ex_constructed 9) [Some 0] ex_outputs = Inr (False, ex_constructed 9)"
  using Connect_validation [of ex_outputs "ex_constructed 9" "[]"]
    Connect_validation [of ex_outputs "ex_constructed 9" "[Some 0]"]
  by (simp add: ex_outputs_def ex_layer_eval)

text \<open>
  The claim as it was stated fails: four outputs of which the helper output is null are
  accepted, and the null pointer is bound.
\<close>

theorem Connect_null_helper_counterexample:
  "Connect (ex_constructed 9) [] [Some 0, Some 1, None, Some 3] =
     Inr (True, (ex_constructed 9)\<lparr>data_output := Some 0, label_output := Some 1,
                  helper_output := None, localized_error_output := Some 3\<rparr>)"
  by (simp add: Connect_def vector_at_def)

subsection \<open>Testing mode\<close>

text \<open>
  Claim C1 at a concrete input: two testing samples, a batch of three, a fresh testing
  cursor. The slots of the first \<^verbatim>\<open>FeedForward\<close> are the index 0 with its weights, then
  two padding samples: the index 1 is never handed to the Dataset, because the cursor is
  compared with \<^verbatim>\<open>elements_testing_\<close> after it has been incremented.
\<close>

theorem testing_mode_drops_last_sample:
  "elements_testing (SetTestingMode (ex_layer 9) True) = 2
   \<and> current_element_testing (SetTestingMode (ex_layer 9) True) = 0
   \<and> logs (FeedForward ex_stdlib (SetTestingMode (ex_layer 9) True) ex_store) =
       Some [Slot 0 False False, Slot 0 True False, Slot 0 True False]"
  by (simp add: ex_testing_run logs_def)
    (simp add: SetTestingMode_def ex_layer_eval ex_constructed_eval)

subsection \<open>The cursors\<close>

text \<open>
  Claim C3, as amended. In training mode a batch slot whose cursor is the last position of
  the permutation sets \<^verbatim>\<open>current_element_\<close> back to 0 and shuffles the permutation once;
  at any other position the cursor moves on by one and the permutation and the engine
  stay as they are. In testing mode a batch slot does not set \<^verbatim>\<open>current_element_testing_\<close>
  back: short of the wrap-around of the 32-bit counter the cursor does not decrease and
  is not 0 afterwards, and the training cursor and the permutation stay as they are. The
  testing cursor is set back to 0 by \<^verbatim>\<open>SetTestingMode\<close>, when it switches from training
  mode to testing mode. Nothing else sets it: a batch slot, returning or not, adds one to
  it in testing mode and leaves it in training mode; a call of \<^verbatim>\<open>FeedForward\<close> in training
  mode leaves it, returning or not, and one in testing mode that returns has added
  \<^verbatim>\<open>batch_size_\<close>; \<^verbatim>\<open>Connect\<close>, \<^verbatim>\<open>RedoPermutation\<close>, \<^verbatim>\<open>BackPropagate\<close>,
  \<^verbatim>\<open>SetTestingMode(false)\<close>, and \<^verbatim>\<open>SetTestingMode(true)\<close> on a layer in testing mode leave
  it. (\<^verbatim>\<open>CreateOutputs\<close> and the three getters do not write to the layer.)
\<close>

theorem cursors_when_exhausted:
  "(\<not> testing s \<and> unat (current_element s) < length (perm s) \<and> length (perm s) < 2 ^ 32 \<longrightarrow>
      (\<exists>s'. select_element L s =
              Inr (perm s ! unat (current_element s), False,
                   unat (current_element s) + 1 = length (perm s), s')
         \<and> (if unat (current_element s) + 1 = length (perm s)
              then current_element s' = 0
                \<and> perm s' = fst (shuffle L (perm s) (generator s))
                \<and> generator s' = snd (shuffle L (perm s) (generator s))
              else current_element s' = current_element s + 1
                \<and> perm s' = perm s \<and> generator s' = generator s)))
   \<and> (testing s \<and> current_element_testing s \<noteq> - 1 \<longrightarrow>
      (\<exists>sel fnw s'. select_element L s = Inr (sel, fnw, False, s')
         \<and> current_element_testing s \<le> current_element_testing s'
         \<and> current_element_testing s' \<noteq> 0
         \<and> testing s' \<and> current_element s' = current_element s \<and> perm s' = perm s))
   \<and> (\<not> testing s \<longrightarrow> current_element_testing (SetTestingMode s True) = 0)
   \<and> current_element_testing (layer_after (slot L s st k)) =
       (if testing s then current_element_testing s + 1 else current_element_testing s)
   \<and> (\<not> testing s \<longrightarrow>
       current_element_testing (layer_after (FeedForward L s st)) = current_element_testing s)
   \<and> (testing s \<and> FeedForward L s st = Inr (lgs, s1, st1) \<longrightarrow>
       current_element_testing s1 = current_element_testing s + batch_size s)
   \<and> (Connect s inputs outputs = Inr (ok, s2) \<longrightarrow>
       current_element_testing s2 = current_element_testing s)
   \<and> current_element_testing (RedoPermutation L s) = current_element_testing s
   \<and> current_element_testing (BackPropagate s) = current_element_testing s
   \<and> current_element_testing (SetTestingMode s False) = current_element_testing s
   \<and> (testing s \<longrightarrow>
       current_element_testing (SetTestingMode s True) = current_element_testing s)"
proof (intro conjI impI)
  assume a: "\<not> testing s \<and> unat (current_element s) < length (perm s) \<and> length (perm s) < 2 ^ 32"
  then have "select_element L s =
     Inr (perm s ! unat (current_element s), False,
          Suc (unat (current_element s)) = length (perm s),
          if Suc (unat (current_element s)) = length (perm s)
          then RedoPermutation L (s\<lparr>current_element := 0\<rparr>)
          else s\<lparr>current_element := current_element s + 1\<rparr>)"
    by (intro select_element_training) simp_all
  then show "\<exists>s'. select_element L s =
              Inr (perm s ! unat (current_element s), False,
                   unat (current_element s) + 1 = length (perm s), s')
         \<and> (if unat (current_element s) + 1 = length (perm s)
              then current_element s' = 0
                \<and> perm s' = fst (shuffle L (perm s) (generator s))
                \<and> generator s' = snd (shuffle L (perm s) (generator s))
              else current_element s' = current_element s + 1
                \<and> perm s' = perm s \<and> generator s' = generator s)"
    by simp
next
  assume a: "testing s \<and> current_element_testing s \<noteq> - 1"
  then have "unat (current_element_testing s + 1) = unat (current_element_testing s) + 1"
    by (intro unat_plus_1 unat_not_max) simp
  then have "current_element_testing s \<le> current_element_testing s + 1"
    and "current_element_testing s + 1 \<noteq> 0"
    by (auto simp add: word_le_nat_alt)
  then show "\<exists>sel fnw s'. select_element L s = Inr (sel, fnw, False, s')
         \<and> current_element_testing s \<le> current_element_testing s'
         \<and> current_element_testing s' \<noteq> 0
         \<and> testing s' \<and> current_element s' = current_element s \<and> perm s' = perm s"
    using a by (simp add: select_element_testing)
next
  assume "\<not> testing s"
  then show "current_element_testing (SetTestingMode s True) = 0"
    by (simp add: SetTestingMode_def)
next
  show "current_element_testing (layer_after (slot L s st k)) =
       (if testing s then current_element_testing s + 1 else current_element_testing s)"
    by (rule slot_cursor_testing)
next
  assume "\<not> testing s"
  then show "current_element_testing (layer_after (FeedForward L s st)) =
      current_element_testing s"
    using slots_cursor_testing_frame [of s L st "[0..<unat (batch_size s)]"]
    by (simp add: FeedForward_def)
next
  assume "testing s \<and> FeedForward L s st = Inr (lgs, s1, st1)"
  then have "testing s" and "FeedForward L s st = Inr (lgs, s1, st1)"
    by simp_all
  then show "current_element_testing s1 = current_element_testing s + batch_size s"
    by (rule FeedForward_cursor_testing_advance)
next
  assume "Connect s inputs outputs = Inr (ok, s2)"
  then show "current_element_testing s2 = current_element_testing s"
    by (rule Connect_cursor_testing)
next
  show "current_element_testing (RedoPermutation L s) = current_element_testing s"
    by simp
next
  show "current_element_testing (BackPropagate s) = current_element_testing s"
    by (simp add: BackPropagate_def)
next
  show "current_element_testing (SetTestingMode s False) = current_element_testing s"
    by (simp add: SetTestingMode_def)
next
  assume "testing s"
  then show "current_element_testing (SetTestingMode s True) = current_element_testing s"
    by (simp add: SetTestingMode_def)
qed

theorem cursors_when_exhausted_witness:
  "\<not> testing ((ex_layer 9)\<lparr>current_element := 4\<rparr>)
   \<and> unat (current_element ((ex_layer 9)\<lparr>current_element := 4\<rparr>))
       < length (perm ((ex_layer 9)\<lparr>current_element := 4\<rparr>))
   \<and> (\<exists>s'. select_element ex_stdlib ((ex_layer 9)\<lparr>current_element := 4\<rparr>) =
              Inr (1, False, True, s')
          \<and> current_element s' = 0 \<and> perm s' = [0, 1, 2, 3, 4])
   \<and> testing ex_tested \<and> current_element_testing ex_tested = 3
   \<and> (\<exists>sel fnw s'. select_element ex_stdlib ex_tested = Inr (sel, fnw, False, s')
          \<and> current_element_testing s' \<noteq> 0)
   \<and> current_element_testing (SetTestingMode (ex_layer 9) True) = 0
   \<and> current_element_testing (layer_after (slot ex_stdlib ex_tested ex_store 0)) = 4
   \<and> current_element_testing (layer_after (FeedForward ex_stdlib (ex_layer 9) ex_store)) = 0
   \<and> (\<exists>lgs s1 st1. FeedForward ex_stdlib (SetTestingMode (ex_layer 9) True) ex_store =
          Inr (lgs, s1, st1) \<and> current_element_testing s1 = 3)
   \<and> current_element_testing (SetTestingMode ex_tested False) = 3
   \<and> current_element_testing (SetTestingMode ex_tested True) = 3"
proof -
  let ?s = "(ex_layer 9)\<lparr>current_element := 4\<rparr>"
  let ?t = "SetTestingMode (ex_layer 9) True"
  note at_s = cursors_when_exhausted [where s = ?s and L = ex_stdlib]
  note at_tested = cursors_when_exhausted [where s = ex_tested and L = ex_stdlib]
  note at_layer = cursors_when_exhausted [where s = "ex_layer 9" and L = ex_stdlib]
  note at_t = cursors_when_exhausted [where s = ?t and L = ex_stdlib]
  have s: "\<not> testing ?s" "unat (current_element ?s) = 4" "perm ?s = [2, 3, 4, 0, 1]"
    "generator ?s = 5"
    by (simp_all add: ex_layer_eval ex_constructed_eval)
  have sh: "fst (shuffle ex_stdlib [2, 3, 4, 0, 1] 5) = [0, 1, 2, 3, 4]"
    by (simp add: ex_stdlib_def numeral_2_eq_2)
  from s have "\<not> testing ?s \<and> unat (current_element ?s) < length (perm ?s)
      \<and> length (perm ?s) < 2 ^ 32"
    by simp
  with at_s [THEN conjunct1] obtain s' where
    "select_element ex_stdlib ?s =
       Inr (perm ?s ! unat (current_element ?s), False,
            unat (current_element ?s) + 1 = length (perm ?s), s')"
    and "if unat (current_element ?s) + 1 = length (perm ?s)
         then current_element s' = 0
           \<and> perm s' = fst (shuffle ex_stdlib (perm ?s) (generator ?s))
           \<and> generator s' = snd (shuffle ex_stdlib (perm ?s) (generator ?s))
         else current_element s' = current_element ?s + 1
           \<and> perm s' = perm ?s \<and> generator s' = generator ?s"
    by blast
  then have "select_element ex_stdlib ?s = Inr (1, False, True, s')
      \<and> current_element s' = 0 \<and> perm s' = [0, 1, 2, 3, 4]"
    by (simp add: s sh)
  then have training: "\<exists>s'. select_element ex_stdlib ?s = Inr (1, False, True, s')
      \<and> current_element s' = 0 \<and> perm s' = [0, 1, 2, 3, 4]"
    by blast
  have t: "testing ex_tested" "current_element_testing ex_tested = 3"
    by (simp_all add: ex_tested_eval)
  then have "testing ex_tested \<and> current_element_testing ex_tested \<noteq> - 1"
    by simp
  with at_tested [THEN conjunct2, THEN conjunct1]
  have testing: "\<exists>sel fnw s'. select_element ex_stdlib ex_tested = Inr (sel, fnw, False, s')
      \<and> current_element_testing s' \<noteq> 0"
    by blast
  have l: "\<not> testing (ex_layer 9)" "current_element_testing (ex_layer 9) = 0"
    by (simp_all add: ex_layer_eval ex_constructed_eval)
  with at_layer [THEN conjunct2, THEN conjunct2, THEN conjunct1]
  have switch: "current_element_testing (SetTestingMode (ex_layer 9) True) = 0"
    by blast
  note rest_tested = at_tested [THEN conjunct2, THEN conjunct2, THEN conjunct2]
  note rest_layer = at_layer [THEN conjunct2, THEN conjunct2, THEN conjunct2]
  note rest_t = at_t [THEN conjunct2, THEN conjunct2, THEN conjunct2]
  from rest_tested [THEN conjunct1, of ex_store 0] t
  have slot: "current_element_testing (layer_after (slot ex_stdlib ex_tested ex_store 0)) = 4"
    by simp
  from rest_layer [THEN conjunct2, THEN conjunct1, of ex_store] l
  have call: "current_element_testing (layer_after (FeedForward ex_stdlib (ex_layer 9) ex_store)) = 0"
    by simp
  have tt: "testing ?t" "current_element_testing ?t = 0" "batch_size ?t = 3"
    by (simp_all add: SetTestingMode_def ex_layer_eval ex_constructed_eval)
  from ex_testing_run obtain lgs s1 st1 where
    run: "FeedForward ex_stdlib ?t ex_store = Inr (lgs, s1, st1)"
    by blast
  with rest_t [THEN conjunct2, THEN conjunct2, THEN conjunct1, of ex_store lgs s1 st1] tt
  have "current_element_testing s1 = 3"
    by simp
  with run have testing_call: "\<exists>lgs s1 st1. FeedForward ex_stdlib ?t ex_store =
          Inr (lgs, s1, st1) \<and> current_element_testing s1 = 3"
    by blast
  note tail = rest_tested [THEN conjunct2, THEN conjunct2, THEN conjunct2, THEN conjunct2,
      THEN conjunct2, THEN conjunct2]
  from tail [THEN conjunct1] t
  have off: "current_element_testing (SetTestingMode ex_tested False) = 3"
    by simp
  from tail [THEN conjunct2] t
  have again: "current_element_testing (SetTestingMode ex_tested True) = 3"
    by simp
  show ?thesis
    by (intro conjI)
      (fact s(1), simp add: s, fact training, fact t(1), fact t(2), fact testing, fact switch,
        fact slot, fact call, fact testing_call, fact off, fact again)
qed

text \<open>
  The claim as it was stated fails for the testing cursor: with two testing samples and a
  batch of three, the cursor stands at 3 after the first batch in testing mode. It has
  passed \<^verbatim>\<open>elements_testing_\<close> and has not been set back to 0.
\<close>

theorem testing_cursor_not_reset_counterexample:
  "elements_testing ex_tested = 2 \<and> current_element_testing ex_tested = 3"
  by (simp add: ex_tested_eval ex_layer_eval ex_constructed_eval)

subsection \<open>Loss sampling\<close>

text \<open>
  Claim C7. Take a batch slot whose sample has been selected and fetched. In testing mode
  the slot draws nothing: the engine is unchanged, and the loss weights are those of the
  fetch, or all zero on a padding sample. In training mode the sample is never padding,
  and, on a tensor whose width and height stay 12 below \<open>2 ^ 32\<close>, the slot returns; one
  draw is taken for each block of 12 by 12 pixels, row by row, and the weight at
  \<open>(x, y)\<close> of the slot is zeroed exactly when the draw of the block
  \<open>(x div 12, y div 12)\<close> exceeds \<open>p\<close>; every other weight is as the fetch left it. When
  \<open>p\<close> is 1 and the draws are at most 1, no weight is zeroed.
\<close>

theorem loss_sampling_by_blocks:
  assumes "select_element L s = Inr (sel, fnw, r, s1)"
    and "deref st (data_output s1) = Some d" and "deref st (label_output s1) = Some l"
    and "deref st (localized_error_output s1) = Some w"
    and "fetch s1 st d l w sample sel = (True, st1)"
    and "w < length st1"
  shows "(testing s \<longrightarrow>
            slot L s st sample =
              Inr (Slot sel fnw r, s1,
                   if fnw then st1[w := (st1 ! w)\<lparr>data := Clear (data (st1 ! w)) 0 sample\<rparr>]
                   else st1))
    \<and> (\<not> testing s \<and> width (data (st1 ! w)) + 12 \<le> 2 ^ 32
          \<and> height (data (st1 ! w)) + 12 \<le> 2 ^ 32 \<longrightarrow>
            \<not> fnw \<and>
            slot L s st sample =
              Inr (Slot sel False r,
                   s1\<lparr>generator :=
                     advance L (blocks (height (data (st1 ! w))) * blocks (width (data (st1 ! w))))
                       (generator s1)\<rparr>,
                   st1[w := (st1 ! w)\<lparr>data :=
                     block_sampled L (loss_sampling_p s) sample (data (st1 ! w)) (generator s1)\<rparr>]))
    \<and> ((\<forall>g. fst (dist L g) \<le> 1) \<and> loss_sampling_p s = 1 \<longrightarrow>
          block_sampled L (loss_sampling_p s) sample (data (st1 ! w)) (generator s1) =
            data (st1 ! w))"
proof (intro conjI impI)
  assume t: "testing s"
  with assms(1) have t1: "testing s1"
    by (simp add: select_element_fields)
  then have "sample_weights L (testing s1) fnw (loss_sampling_p s1) sample (data (st1 ! w))
      (generator s1) = Some (if fnw then Clear (data (st1 ! w)) 0 sample else data (st1 ! w), generator s1)"
    by (intro sample_weights_idle) simp
  from slot_eval [OF assms this] t1
  show "slot L s st sample =
      Inr (Slot sel fnw r, s1,
           if fnw then st1[w := (st1 ! w)\<lparr>data := Clear (data (st1 ! w)) 0 sample\<rparr>] else st1)"
    by simp
next
  assume a: "\<not> testing s \<and> width (data (st1 ! w)) + 12 \<le> 2 ^ 32
          \<and> height (data (st1 ! w)) + 12 \<le> 2 ^ 32"
  with assms(1) have t1: "\<not> testing s1" and p1: "loss_sampling_p s1 = loss_sampling_p s"
    by (simp_all add: select_element_fields)
  from a assms(1) show nopad: "\<not> fnw"
    by (auto dest: select_element_training_no_padding)
  from t1 nopad a
  have "sample_weights L (testing s1) fnw (loss_sampling_p s1) sample (data (st1 ! w))
      (generator s1) =
    Some (block_sampled L (loss_sampling_p s1) sample (data (st1 ! w)) (generator s1),
          advance L (blocks (height (data (st1 ! w))) * blocks (width (data (st1 ! w))))
            (generator s1))"
    by (intro sample_weights_training) simp_all
  from slot_eval [OF assms this] t1 nopad p1
  show "slot L s st sample =
      Inr (Slot sel False r,
           s1\<lparr>generator :=
             advance L (blocks (height (data (st1 ! w))) * blocks (width (data (st1 ! w))))
               (generator s1)\<rparr>,
           st1[w := (st1 ! w)\<lparr>data :=
             block_sampled L (loss_sampling_p s) sample (data (st1 ! w)) (generator s1)\<rparr>])"
    by simp
next
  assume "(\<forall>g. fst (dist L g) \<le> 1) \<and> loss_sampling_p s = 1"
  then show "block_sampled L (loss_sampling_p s) sample (data (st1 ! w)) (generator s1) =
      data (st1 ! w)"
    by (intro block_sampled_keep_all) simp
qed

theorem loss_sampling_by_blocks_witness:
  "select_element ex_stdlib (ex_layer 9) =
     Inr (2, False, False, (ex_layer 9)\<lparr>current_element := 1\<rparr>)
   \<and> fetch ((ex_layer 9)\<lparr>current_element := 1\<rparr>) ex_store 0 1 3 0 2 =
       (True, ex_store[3 := (ex_store ! 3)\<lparr>data := Clear (data (ex_store ! 3)) 1 0\<rparr>])
   \<and> \<not> testing (ex_layer 9)
   \<and> slot ex_stdlib (ex_layer 9) ex_store 0 =
       Inr (Slot 2 False False, (ex_layer 9)\<lparr>current_element := 1, generator := 15\<rparr>,
            ex_store[3 := (ex_store ! 3)\<lparr>data :=
              block_sampled ex_stdlib (1 / 2) 0 (Clear (data (ex_store ! 3)) 1 0) 5\<rparr>])
   \<and> elements (block_sampled ex_stdlib (1 / 2) 0 (Clear (data (ex_store ! 3)) 1 0) 5)
         11 1 0 0 = 1
   \<and> elements (block_sampled ex_stdlib (1 / 2) 0 (Clear (data (ex_store ! 3)) 1 0) 5)
         12 1 0 0 = 0
   \<and> testing (SetTestingMode (ex_layer 9) True)
   \<and> slot ex_stdlib (SetTestingMode (ex_layer 9) True) ex_store 0 =
       Inr (Slot 0 False False, (ex_layer 9)\<lparr>testing := True, current_element_testing := 1\<rparr>,
            ex_store[3 := (ex_store ! 3)\<lparr>data := Clear (data (ex_store ! 3)) 1 0\<rparr>])
   \<and> (\<forall>g. fst (dist ex_stdlib g) \<le> 1)
   \<and> loss_sampling_p ((ex_layer 9)\<lparr>loss_sampling_p := 1\<rparr>) = 1
   \<and> block_sampled ex_stdlib 1 0 (Clear (data (ex_store ! 3)) 1 0) 5 =
       Clear (data (ex_store ! 3)) 1 0"
proof -
  let ?s1 = "(ex_layer 9)\<lparr>current_element := 1\<rparr>"
  let ?st1 = "ex_store[3 := (ex_store ! 3)\<lparr>data := Clear (data (ex_store ! 3)) 1 0\<rparr>]"
  have f: "fetch ?s1 ex_store 0 1 3 0 2 = (True, ?st1)"
    by (simp add: fetch_def ex_layer_eval ex_constructed_eval ex_dataset_def ex_fetch_def)
  have d: "deref ex_store (data_output ?s1) = Some 0" "deref ex_store (label_output ?s1) = Some 1"
    "deref ex_store (localized_error_output ?s1) = Some 3"
    by (simp_all add: deref_def ex_layer_eval ex_shape)
  have len: "3 < length ?st1"
    by (simp add: ex_shape)
  let ?t1 = "(ex_layer 9)\<lparr>testing := True, current_element_testing := 1\<rparr>"
  have f': "fetch ?t1 ex_store 0 1 3 0 0 = (True, ?st1)"
    by (simp add: fetch_def ex_layer_eval ex_constructed_eval ex_dataset_def ex_fetch_def)
  have d': "deref ex_store (data_output ?t1) = Some 0" "deref ex_store (label_output ?t1) = Some 1"
    "deref ex_store (localized_error_output ?t1) = Some 3"
    by (simp_all add: deref_def ex_layer_eval ex_shape)
  let ?p = "(ex_layer 9)\<lparr>loss_sampling_p := 1\<rparr>"
  let ?p1 = "(ex_layer 9)\<lparr>loss_sampling_p := 1, current_element := 1\<rparr>"
  have sel'': "select_element ex_stdlib ?p = Inr (2, False, False, ?p1)"
    by (simp add: select_element_training ex_layer_eval ex_constructed_eval)
  have f'': "fetch ?p1 ex_store 0 1 3 0 2 = (True, ?st1)"
    by (simp add: fetch_def ex_layer_eval ex_constructed_eval ex_dataset_def ex_fetch_def)
  have d'': "deref ex_store (data_output ?p1) = Some 0" "deref ex_store (label_output ?p1) = Some 1"
    "deref ex_store (localized_error_output ?p1) = Some 3"
    by (simp_all add: deref_def ex_layer_eval ex_shape)
  have tr: "\<not> testing (ex_layer 9)" "testing (SetTestingMode (ex_layer 9) True)"
    "generator (ex_layer 9) = 5" "loss_sampling_p (ex_layer 9) = 1 / 2"
    by (simp_all add: ex_layer_eval ex_constructed_eval SetTestingMode_def)
  have one: "\<forall>g. fst (dist ex_stdlib g) \<le> 1" "loss_sampling_p ?p = 1" "generator ?p1 = 5"
    by (simp_all add: ex_draws_bounded ex_layer_eval ex_constructed_eval)
  from loss_sampling_by_blocks [OF sel'' d'' f'' len] one
  have keep: "block_sampled ex_stdlib 1 0 (Clear (data (ex_store ! 3)) 1 0) 5 =
      Clear (data (ex_store ! 3)) 1 0"
    by (simp add: ex_shape)
  from loss_sampling_by_blocks [OF ex_select_training d f len] tr
  have training: "slot ex_stdlib (ex_layer 9) ex_store 0 =
       Inr (Slot 2 False False, (ex_layer 9)\<lparr>current_element := 1, generator := 15\<rparr>,
            ex_store[3 := (ex_store ! 3)\<lparr>data :=
              block_sampled ex_stdlib (1 / 2) 0 (Clear (data (ex_store ! 3)) 1 0) 5\<rparr>])"
    by (simp add: ex_shape ex_blocks ex_advance_2)
  from loss_sampling_by_blocks [OF ex_select_testing d' f' len] tr
  have testing: "slot ex_stdlib (SetTestingMode (ex_layer 9) True) ex_store 0 =
       Inr (Slot 0 False False, ?t1, ?st1)"
    by simp
  show ?thesis
    by (intro conjI)
      (fact ex_select_training, fact f, fact tr(1), fact training, fact ex_pixels(2),
        fact ex_pixels(4), fact tr(2), fact testing, fact one(1), fact one(2), fact keep)
qed

subsection \<open>A fetch that fails\<close>

text \<open>
  Claim C8. When the fetch of a batch slot returns \<^verbatim>\<open>false\<close>, after any number of slots
  that went well, the run ends there with the fatal outcome, whatever slots were still to
  come: the layer and the store are those that the failing fetch left, so no later slot
  is selected, fetched or written, and the sample is neither fetched again nor stepped
  over. This holds in particular for the slots \<open>0, ..., batch_size_ - 1\<close> of one
  \<^verbatim>\<open>FeedForward\<close>.
\<close>

theorem fetch_failure_halts:
  assumes "slots L s st before = Inr (lgs, s0, st0)"
    and "select_element L s0 = Inr (sel, fnw, r, s1)"
    and "deref st0 (data_output s1) = Some d" and "deref st0 (label_output s1) = Some l"
    and "deref st0 (localized_error_output s1) = Some w"
    and "fetch s1 st0 d l w sample sel = (False, st1)"
  shows "slots L s st (before @ sample # rest) =
      Inl (Fatal ''Cannot load samples from Dataset!'', s1, st1)
    \<and> (before @ sample # rest = [0..<unat (batch_size s)] \<longrightarrow>
         FeedForward L s st = Inl (Fatal ''Cannot load samples from Dataset!'', s1, st1))"
proof -
  have "slot L s0 st0 sample = Inl (Fatal ''Cannot load samples from Dataset!'', s1, st1)"
    using assms(2-6) by (rule slot_fatal)
  then have "slots L s st (before @ sample # rest) =
      Inl (Fatal ''Cannot load samples from Dataset!'', s1, st1)"
    using assms(1) by (simp add: slots_append)
  then show ?thesis
    by (auto simp add: FeedForward_def)
qed

theorem fetch_failure_halts_witness:
  "slots ex_stdlib (ex_layer 3) ex_store [0] =
     Inr ([Slot 2 False False], (ex_layer 3)\<lparr>current_element := 1, generator := 15\<rparr>,
          ex_store[3 := (ex_store ! 3)\<lparr>data :=
            block_sampled ex_stdlib (1 / 2) 0 (Clear (data (ex_store ! 3)) 1 0) 5\<rparr>])
   \<and> select_element ex_stdlib ((ex_layer 3)\<lparr>current_element := 1, generator := 15\<rparr>) =
       Inr (3, False, False, (ex_layer 3)\<lparr>current_element := 2, generator := 15\<rparr>)
   \<and> fetch ((ex_layer 3)\<lparr>current_element := 2, generator := 15\<rparr>)
       (ex_store[3 := (ex_store ! 3)\<lparr>data :=
            block_sampled ex_stdlib (1 / 2) 0 (Clear (data (ex_store ! 3)) 1 0) 5\<rparr>]) 0 1 3 1 3 =
       (False, ex_store[3 := (ex_store ! 3)\<lparr>data :=
            Clear (block_sampled ex_stdlib (1 / 2) 0 (Clear (data (ex_store ! 3)) 1 0) 5) 1 1\<rparr>])
   \<and> [0] @ 1 # [2] = [0..<unat (batch_size (ex_layer 3))]
   \<and> FeedForward ex_stdlib (ex_layer 3) ex_store =
       Inl (Fatal ''Cannot load samples from Dataset!'',
            (ex_layer 3)\<lparr>current_element := 2, generator := 15\<rparr>,
            ex_store[3 := (ex_store ! 3)\<lparr>data :=
              Clear (block_sampled ex_stdlib (1 / 2) 0 (Clear (data (ex_store ! 3)) 1 0) 5) 1 1\<rparr>])"
proof -
  let ?s0 = "(ex_layer 3)\<lparr>current_element := 1, generator := 15\<rparr>"
  let ?st0 = "ex_store[3 := (ex_store ! 3)\<lparr>data :=
            block_sampled ex_stdlib (1 / 2) 0 (Clear (data (ex_store ! 3)) 1 0) 5\<rparr>]"
  let ?s1 = "(ex_layer 3)\<lparr>current_element := 2, generator := 15\<rparr>"
  let ?st1 = "ex_store[3 := (ex_store ! 3)\<lparr>data :=
            Clear (block_sampled ex_stdlib (1 / 2) 0 (Clear (data (ex_store ! 3)) 1 0) 5) 1 1\<rparr>]"
  have before: "slots ex_stdlib (ex_layer 3) ex_store [0] = Inr ([Slot 2 False False], ?s0, ?st0)"
    by (simp add: ex_slot_training)
  have sel: "select_element ex_stdlib ?s0 = Inr (3, False, False, ?s1)"
    by (simp add: select_element_training ex_layer_eval ex_constructed_eval)
  have d: "deref ?st0 (data_output ?s1) = Some 0" "deref ?st0 (label_output ?s1) = Some 1"
    "deref ?st0 (localized_error_output ?s1) = Some 3"
    by (simp_all add: deref_def ex_layer_eval ex_shape)
  have f: "fetch ?s1 ?st0 0 1 3 1 3 = (False, ?st1)"
    by (simp add: fetch_def ex_layer_eval ex_constructed_eval ex_dataset_def ex_fetch_def ex_shape)
  have b: "[0] @ 1 # [2] = [0..<unat (batch_size (ex_layer 3))]"
    by (simp add: ex_layer_eval ex_constructed_eval upt_rec [of _ 3])
  from fetch_failure_halts [OF before sel d f, of "[2]"] b
  have "FeedForward ex_stdlib (ex_layer 3) ex_store =
      Inl (Fatal ''Cannot load samples from Dataset!'', ?s1, ?st1)"
    by blast
  with before sel f b show ?thesis
    by (intro conjI)
qed

subsection \<open>A pass over the permutation\<close>

text \<open>
  Claim C5. In training mode, with the cursor inside the permutation, a batch slot leaves
  the cursor moved on by one and the permutation as it was, or, at the last position, the
  cursor at 0 and the permutation shuffled once by the engine; this holds whether the
  slot returns or ends in the \<^verbatim>\<open>FATAL\<close> exit, and a slot that returns has selected
  \<^verbatim>\<open>perm_[current_element_]\<close>. Start with the cursor at 0 and run as many batch slots as
  the permutation is long, in one call of \<^verbatim>\<open>FeedForward\<close> or across several. If they
  return, the slots have selected \<^verbatim>\<open>perm_[0]\<close>, \<^verbatim>\<open>perm_[1]\<close>, ... in this order, none is
  padding, the permutation was shuffled in the last of these slots and in no other, and
  the cursor is 0 again. They do return when the layer is bound to tensors of the store,
  the loss weights stay 12 below \<open>2 ^ 32\<close> in width and height, and the Dataset keeps the
  geometry and serves the indices of the permutation; the engine that shuffles is then
  the one that the draws of the slots before have moved. The witness is the example of
  the claim: five training samples and a batch of three; the second call selects
  \<^verbatim>\<open>perm_[3]\<close>, \<^verbatim>\<open>perm_[4]\<close>, shuffles, and selects the first element of the new
  permutation.
\<close>

theorem training_pass:
  "(\<not> testing s \<and> unat (current_element s) < length (perm s) \<and> length (perm s) < 2 ^ 32 \<longrightarrow>
      (if unat (current_element s) + 1 = length (perm s)
       then current_element (layer_after (slot L s st k)) = 0
         \<and> perm (layer_after (slot L s st k)) = fst (shuffle L (perm s) (generator s))
       else current_element (layer_after (slot L s st k)) = current_element s + 1
         \<and> perm (layer_after (slot L s st k)) = perm s)
      \<and> (\<forall>lg s1 st1. slot L s st k = Inr (lg, s1, st1) \<longrightarrow>
            lg = Slot (perm s ! unat (current_element s)) False
                   (unat (current_element s) + 1 = length (perm s))))
   \<and> (\<not> testing s \<and> current_element s = 0 \<and> perm s \<noteq> [] \<and> length (perm s) < 2 ^ 32
        \<and> length ss = length (perm s) \<longrightarrow>
      (\<forall>lgs s' st'. slots L s st ss = Inr (lgs, s', st') \<longrightarrow>
         map selected lgs = perm s
         \<and> map reshuffled lgs = replicate (length (perm s) - 1) False @ [True]
         \<and> map no_weight lgs = replicate (length (perm s)) False
         \<and> current_element s' = 0 \<and> \<not> testing s'
         \<and> (\<exists>g. perm s' = fst (shuffle L (perm s) g)))
      \<and> (bound_in s st \<and> weights_shape s st W H \<and> W + 12 \<le> 2 ^ 32 \<and> H + 12 \<le> 2 ^ 32
           \<and> keeps_geometry (dataset s) \<and> (\<forall>i\<in>set (perm s). serves (dataset s) i) \<longrightarrow>
         (\<exists>lgs s' st'. slots L s st ss = Inr (lgs, s', st')
            \<and> map selected lgs = perm s
            \<and> map reshuffled lgs = replicate (length (perm s) - 1) False @ [True]
            \<and> map no_weight lgs = replicate (length (perm s)) False
            \<and> current_element s' = 0 \<and> \<not> testing s'
            \<and> perm s' = fst (shuffle L (perm s)
                 (advance L ((length (perm s) - 1) * (blocks H * blocks W)) (generator s))))))"
proof (intro conjI impI)
  assume a: "\<not> testing s \<and> unat (current_element s) < length (perm s)
      \<and> length (perm s) < 2 ^ 32"
  then show "if unat (current_element s) + 1 = length (perm s)
       then current_element (layer_after (slot L s st k)) = 0
         \<and> perm (layer_after (slot L s st k)) = fst (shuffle L (perm s) (generator s))
       else current_element (layer_after (slot L s st k)) = current_element s + 1
         \<and> perm (layer_after (slot L s st k)) = perm s"
    by (intro slot_training_after) simp_all
  show "\<forall>lg s1 st1. slot L s st k = Inr (lg, s1, st1) \<longrightarrow>
            lg = Slot (perm s ! unat (current_element s)) False
                   (unat (current_element s) + 1 = length (perm s))"
  proof (intro allI impI)
    fix lg s1 st1
    assume "slot L s st k = Inr (lg, s1, st1)"
    with a show "lg = Slot (perm s ! unat (current_element s)) False
                   (unat (current_element s) + 1 = length (perm s))"
      by (intro slot_training(2)) simp_all
  qed
next
  assume a: "\<not> testing s \<and> current_element s = 0 \<and> perm s \<noteq> [] \<and> length (perm s) < 2 ^ 32
        \<and> length ss = length (perm s)"
  then have start: "unat (current_element s) + length ss = length (perm s)" "ss \<noteq> []"
    by auto
  show "\<forall>lgs s' st'. slots L s st ss = Inr (lgs, s', st') \<longrightarrow>
         map selected lgs = perm s
         \<and> map reshuffled lgs = replicate (length (perm s) - 1) False @ [True]
         \<and> map no_weight lgs = replicate (length (perm s)) False
         \<and> current_element s' = 0 \<and> \<not> testing s'
         \<and> (\<exists>g. perm s' = fst (shuffle L (perm s) g))"
  proof (intro allI impI)
    fix lgs s' st'
    assume run: "slots L s st ss = Inr (lgs, s', st')"
    from training_pass_from [OF _ _ start run] a
    show "map selected lgs = perm s
         \<and> map reshuffled lgs = replicate (length (perm s) - 1) False @ [True]
         \<and> map no_weight lgs = replicate (length (perm s)) False
         \<and> current_element s' = 0 \<and> \<not> testing s'
         \<and> (\<exists>g. perm s' = fst (shuffle L (perm s) g))"
      by simp
  qed
  assume b: "bound_in s st \<and> weights_shape s st W H \<and> W + 12 \<le> 2 ^ 32 \<and> H + 12 \<le> 2 ^ 32
           \<and> keeps_geometry (dataset s) \<and> (\<forall>i\<in>set (perm s). serves (dataset s) i)"
  from a b have "\<exists>lgs s' st'. slots L s st ss = Inr (lgs, s', st')
      \<and> perm s' = fst (shuffle L (perm s)
           (advance L ((length ss - 1) * (blocks H * blocks W)) (generator s)))"
    by (intro training_pass_returns start) simp_all
  then obtain lgs s' st' where run: "slots L s st ss = Inr (lgs, s', st')"
    and p: "perm s' = fst (shuffle L (perm s)
           (advance L ((length ss - 1) * (blocks H * blocks W)) (generator s)))"
    by blast
  from training_pass_from [OF _ _ start run] a
  have "map selected lgs = perm s
         \<and> map reshuffled lgs = replicate (length (perm s) - 1) False @ [True]
         \<and> map no_weight lgs = replicate (length (perm s)) False
         \<and> current_element s' = 0 \<and> \<not> testing s'"
    by simp
  with run p a show "\<exists>lgs s' st'. slots L s st ss = Inr (lgs, s', st')
            \<and> map selected lgs = perm s
            \<and> map reshuffled lgs = replicate (length (perm s) - 1) False @ [True]
            \<and> map no_weight lgs = replicate (length (perm s)) False
            \<and> current_element s' = 0 \<and> \<not> testing s'
            \<and> perm s' = fst (shuffle L (perm s)
                 (advance L ((length (perm s) - 1) * (blocks H * blocks W)) (generator s)))"
    by auto
qed

theorem training_pass_witness:
  "\<not> testing (ex_layer 9) \<and> current_element (ex_layer 9) = 0
   \<and> perm (ex_layer 9) = [2, 3, 4, 0, 1]
   \<and> bound_in (ex_layer 9) ex_store \<and> weights_shape (ex_layer 9) ex_store 13 2
   \<and> keeps_geometry (dataset (ex_layer 9))
   \<and> serves (dataset (ex_layer 9)) 2 \<and> serves (dataset (ex_layer 9)) 3
   \<and> serves (dataset (ex_layer 9)) 4 \<and> serves (dataset (ex_layer 9)) 0
   \<and> serves (dataset (ex_layer 9)) 1
   \<and> (\<exists>lgs s' st'. slots ex_stdlib (ex_layer 9) ex_store [0, 1, 2, 0, 1] = Inr (lgs, s', st')
          \<and> map selected lgs = [2, 3, 4, 0, 1]
          \<and> map reshuffled lgs = [False, False, False, False, True]
          \<and> map no_weight lgs = [False, False, False, False, False]
          \<and> current_element s' = 0 \<and> perm s' = [4, 0, 1, 2, 3])
   \<and> current_element (layer_after (slot ex_stdlib (ex_layer 9) ex_store 0)) = 1
   \<and> perm (layer_after (slot ex_stdlib (ex_layer 9) ex_store 0)) = [2, 3, 4, 0, 1]
   \<and> logs (FeedForward_calls ex_stdlib 2 (ex_layer 9) ex_store) =
       Some [Slot 2 False False, Slot 3 False False, Slot 4 False False,
             Slot 0 False False, Slot 1 False True, Slot 4 False False]"
proof -
  note pass = training_pass [where s = "ex_layer 9" and L = ex_stdlib and st = ex_store
      and ss = "[0, 1, 2, 0, 1]" and W = 13 and H = 2 and k = 0]
  have s: "\<not> testing (ex_layer 9)" "current_element (ex_layer 9) = 0"
    "perm (ex_layer 9) = [2, 3, 4, 0, 1]" "generator (ex_layer 9) = 5"
    "dataset (ex_layer 9) = ex_dataset 9"
    by (simp_all add: ex_layer_state)
  have keeps: "keeps_geometry (dataset (ex_layer 9))"
    by (simp add: s ex_keeps_geometry)
  have served: "serves (dataset (ex_layer 9)) 2" "serves (dataset (ex_layer 9)) 3"
    "serves (dataset (ex_layer 9)) 4" "serves (dataset (ex_layer 9)) 0"
    "serves (dataset (ex_layer 9)) 1"
    by (simp_all add: s ex_serves)
  have sh: "fst (shuffle ex_stdlib [2, 3, 4, 0, 1] 13) = [4, 0, 1, 2, 3]"
    by (simp add: ex_stdlib_def numeral_2_eq_2)
  from s served ex_bound [of 9] keeps
  have "\<exists>lgs s' st'. slots ex_stdlib (ex_layer 9) ex_store [0, 1, 2, 0, 1] = Inr (lgs, s', st')
            \<and> map selected lgs = perm (ex_layer 9)
            \<and> map reshuffled lgs = replicate (length (perm (ex_layer 9)) - 1) False @ [True]
            \<and> map no_weight lgs = replicate (length (perm (ex_layer 9))) False
            \<and> current_element s' = 0 \<and> \<not> testing s'
            \<and> perm s' = fst (shuffle ex_stdlib (perm (ex_layer 9))
                 (advance ex_stdlib ((length (perm (ex_layer 9)) - 1) * (blocks 2 * blocks 13))
                    (generator (ex_layer 9))))"
    by (intro pass [THEN conjunct2, rule_format, THEN conjunct2, rule_format]) simp_all
  then obtain lgs s' st' where
    run: "slots ex_stdlib (ex_layer 9) ex_store [0, 1, 2, 0, 1] = Inr (lgs, s', st')"
    and a: "map selected lgs = perm (ex_layer 9)"
    and b: "map reshuffled lgs = replicate (length (perm (ex_layer 9)) - 1) False @ [True]"
    and c: "map no_weight lgs = replicate (length (perm (ex_layer 9))) False"
    and d: "current_element s' = 0"
    and p: "perm s' = fst (shuffle ex_stdlib (perm (ex_layer 9))
                 (advance ex_stdlib ((length (perm (ex_layer 9)) - 1) * (blocks 2 * blocks 13))
                    (generator (ex_layer 9))))"
    by blast
  have five: "length (perm (ex_layer 9)) - 1 = 4" "length (perm (ex_layer 9)) = 5"
    by (simp_all add: s)
  have reps: "replicate 4 False @ [True] = [False, False, False, False, True]"
    "replicate 5 False = [False, False, False, False, False]"
    by (simp_all add: numeral_eq_Suc)
  from a have a': "map selected lgs = [2, 3, 4, 0, 1]"
    by (simp only: s)
  from b have b': "map reshuffled lgs = [False, False, False, False, True]"
    by (simp only: five(1) reps)
  from c have c': "map no_weight lgs = [False, False, False, False, False]"
    by (simp only: five(2) reps)
  from p have "perm s' = fst (shuffle ex_stdlib [2, 3, 4, 0, 1] (advance ex_stdlib 8 5))"
    by (simp add: s ex_blocks)
  then have p': "perm s' = [4, 0, 1, 2, 3]"
    by (simp only: ex_advance_8 sh)
  have whole: "\<exists>lgs s' st'.
      slots ex_stdlib (ex_layer 9) ex_store [0, 1, 2, 0, 1] = Inr (lgs, s', st')
      \<and> map selected lgs = [2, 3, 4, 0, 1]
      \<and> map reshuffled lgs = [False, False, False, False, True]
      \<and> map no_weight lgs = [False, False, False, False, False]
      \<and> current_element s' = 0 \<and> perm s' = [4, 0, 1, 2, 3]"
    by (rule exI [of _ lgs], rule exI [of _ s'], rule exI [of _ st'])
      (simp only: run a' b' c' d p' simp_thms)
  from s have "\<not> testing (ex_layer 9) \<and> unat (current_element (ex_layer 9)) < length (perm (ex_layer 9))
      \<and> length (perm (ex_layer 9)) < 2 ^ 32"
    by simp
  from pass [THEN conjunct1, rule_format, OF this, THEN conjunct1]
  have one: "current_element (layer_after (slot ex_stdlib (ex_layer 9) ex_store 0)) = 1"
    "perm (layer_after (slot ex_stdlib (ex_layer 9) ex_store 0)) = [2, 3, 4, 0, 1]"
    by (simp_all add: s)
  have calls: "logs (FeedForward_calls ex_stdlib 2 (ex_layer 9) ex_store) =
       Some [Slot 2 False False, Slot 3 False False, Slot 4 False False,
             Slot 0 False False, Slot 1 False True, Slot 4 False False]"
    by (simp add: logs_def FeedForward_calls_2 ex_FeedForward ex_layer_state
        ex_slot ex_shape ex_next_def)
  show ?thesis
    by (intro conjI)
      (fact s(1), fact s(2), fact s(3), fact ex_bound(1), fact ex_bound(2), fact keeps,
        fact served(1), fact served(2), fact served(3), fact served(4), fact served(5),
        fact whole, fact one(1), fact one(2), fact calls)
qed

subsection \<open>The permutation\<close>

text \<open>
  Claim C4. Let \<^verbatim>\<open>std::shuffle\<close> reorder the range it is given. Then in every reachable
  layer (the constructed layer, and the layer after any calls of \<^verbatim>\<open>Connect\<close>,
  \<^verbatim>\<open>SetTestingMode\<close>, \<^verbatim>\<open>RedoPermutation\<close>, \<^verbatim>\<open>BackPropagate\<close> and \<^verbatim>\<open>FeedForward\<close> in either
  mode, also a \<^verbatim>\<open>FeedForward\<close> that ended in the fatal exit) the vector \<^verbatim>\<open>perm_\<close> has as many
  elements as the Dataset has training samples, and sorting it yields
  \<open>0, 1, ..., training_count - 1\<close>.
\<close>

theorem perm_is_permutation:
  assumes "shuffle_permutes L" and "reachable L ds b p sd s"
  shows "length (perm s) = unat (GetTrainingSamples ds)
    \<and> sort (perm s) = map word_of_nat [0..<unat (GetTrainingSamples ds)]"
proof -
  have m: "mset (perm s) = mset (map word_of_nat [0..<unat (GetTrainingSamples ds)])"
    using assms by (rule reachable_mset)
  then have "size (mset (perm s)) = size (mset (map word_of_nat [0..<unat (GetTrainingSamples ds)] :: uint list))"
    by simp
  then have "length (perm s) = unat (GetTrainingSamples ds)"
    by simp
  moreover from m [symmetric] sorted_ascending
  have "sort (perm s) = map word_of_nat [0..<unat (GetTrainingSamples ds)]"
    by (rule properties_for_sort)
  ultimately show ?thesis
    by simp
qed

theorem perm_is_permutation_witness:
  "shuffle_permutes ex_stdlib
   \<and> reachable ex_stdlib (ex_dataset 9) 3 (1 / 2) 42 (ex_state 9 [4, 0, 1, 2, 3] 1 8)
   \<and> perm (ex_state 9 [4, 0, 1, 2, 3] 1 8) = [4, 0, 1, 2, 3]
   \<and> unat (GetTrainingSamples (ex_dataset 9)) = 5
   \<and> sort [4, 0, 1, 2, 3 :: uint] = [0, 1, 2, 3, 4]"
proof -
  have five: "unat (GetTrainingSamples (ex_dataset 9)) = 5"
    by (simp add: ex_dataset_def)
  have "map word_of_nat [0..<5] = [0, 1, 2, 3, 4 :: uint]"
    by (simp add: upt_rec)
  with perm_is_permutation [OF ex_shuffle_permutes ex_reachable] five
  have "sort [4, 0, 1, 2, 3 :: uint] = [0, 1, 2, 3, 4]"
    by simp
  with ex_shuffle_permutes ex_reachable five show ?thesis
    by simp
qed

subsection \<open>Determinism\<close>




end
